theory Spec2Isabelle
  imports Complex_Main "HOL-Library.Log_Nat"
begin

section \<open>The module and its numbers\<close>

text \<open>
  The module \<open>software/reachy/parts/motor.py\<close> defines two classes, \<open>DynamixelMotor\<close>
  and \<open>OrbitaActuator\<close>. Both drive handles of a motor bus (the \<open>pyluos\<close> modules
  \<open>luos_motor\<close> and \<open>luos_disks_motor\<close>) by reading and writing attributes of them.

  Where the program compares numbers it has computed (the round trip of the frame
  transform, the sign test of the stall loop), the arithmetic is that of Python's
  floats, IEEE doubles with rounding to nearest, ties to even. Where it only hands a
  computed number on to the bus (the speeds of \<open>orient\<close>), the number is the real that
  the float approximates.
\<close>

section \<open>Doubles\<close>

text \<open>
  A double is a real with a significand of 53 bits and an exponent that keeps it below
  \<open>2 ^ 1024\<close> in magnitude (with the denormals, the multiples of \<open>2 ^ - 1074\<close>, at the
  other end), or one of the two infinities, or not-a-number. The two zeros are one
  value here: they compare equal, and no claim divides by them.
\<close>

datatype nonfinite = PlusInf | MinusInf | NaN

datatype double = Finite real | NonFinite nonfinite

definition pow2 :: "int \<Rightarrow> real" where
  "pow2 e = (if 0 \<le> e then 2 ^ nat e else 1 / 2 ^ nat (- e))"

text \<open>The exponent of a positive real: the \<open>e\<close> with \<open>2 ^ e \<le> x < 2 ^ (e + 1)\<close>.\<close>

definition floor_log2 :: "real \<Rightarrow> int" where
  "floor_log2 x = (if 1 \<le> x then bitlen \<lfloor>x\<rfloor> - 1 else - bitlen (\<lceil>1 / x\<rceil> - 1))"

text \<open>Rounding to the nearest integer, a tie going to the even one.\<close>

definition round_even :: "real \<Rightarrow> int" where
  "round_even x =
     (let f = \<lfloor>x\<rfloor>; d = x - of_int f
      in if d < 1 / 2 then f else if 1 / 2 < d then f + 1 else if even f then f else f + 1)"

text \<open>
  Rounding a positive real to 53 significant bits, or to a multiple of \<open>2 ^ - 1074\<close>
  when it is too small for that; then any real, by its sign.
\<close>

definition fl_abs :: "real \<Rightarrow> real" where
  "fl_abs x = (let e = max (floor_log2 x - 52) (- 1074)
               in of_int (round_even (x / pow2 e)) * pow2 e)"

definition fl :: "real \<Rightarrow> real" where
  "fl x = (if x = 0 then 0 else if 0 < x then fl_abs x else - fl_abs (- x))"

text \<open>The double nearest to a real; what rounds to \<open>2 ^ 1024\<close> or beyond is infinite.\<close>

definition to_double :: "real \<Rightarrow> double" where
  "to_double x =
     (let y = fl x
      in if y = 0 then Finite 0
         else if 1024 \<le> floor_log2 \<bar>y\<bar> then NonFinite (if 0 < y then PlusInf else MinusInf)
         else Finite y)"

fun dneg :: "double \<Rightarrow> double" where
  "dneg (Finite a) = Finite (- a)"
| "dneg (NonFinite PlusInf) = NonFinite MinusInf"
| "dneg (NonFinite MinusInf) = NonFinite PlusInf"
| "dneg (NonFinite NaN) = NonFinite NaN"

fun dadd :: "double \<Rightarrow> double \<Rightarrow> double" where
  "dadd (Finite a) (Finite b) = to_double (a + b)"
| "dadd (Finite a) (NonFinite n) = NonFinite n"
| "dadd (NonFinite n) (Finite b) = NonFinite n"
| "dadd (NonFinite n) (NonFinite n') = (if n = n' then NonFinite n else NonFinite NaN)"

definition dsub :: "double \<Rightarrow> double \<Rightarrow> double" where
  "dsub a b = dadd a (dneg b)"

fun dmul :: "double \<Rightarrow> double \<Rightarrow> double" where
  "dmul (Finite a) (Finite b) = to_double (a * b)"
| "dmul (Finite a) (NonFinite n) =
     (if n = NaN \<or> a = 0 then NonFinite NaN
      else if 0 < a then NonFinite n else dneg (NonFinite n))"
| "dmul (NonFinite n) (Finite b) =
     (if n = NaN \<or> b = 0 then NonFinite NaN
      else if 0 < b then NonFinite n else dneg (NonFinite n))"
| "dmul (NonFinite n) (NonFinite n') =
     (if n = NaN \<or> n' = NaN then NonFinite NaN
      else if n = n' then NonFinite PlusInf else NonFinite MinusInf)"

text \<open>A double over a positive count, and the test \<open>x >= 0\<close>, false of not-a-number.\<close>

fun ddiv_nat :: "double \<Rightarrow> nat \<Rightarrow> double" where
  "ddiv_nat (Finite a) n = to_double (a / real n)"
| "ddiv_nat (NonFinite k) n = NonFinite k"

fun dge0 :: "double \<Rightarrow> bool" where
  "dge0 (Finite a) = (0 \<le> a)"
| "dge0 (NonFinite PlusInf) = True"
| "dge0 (NonFinite k) = False"

section \<open>Values, errors and the motor bus\<close>

type_synonym handle = nat

datatype reg =
    R_limit_current | R_encoder_res | R_reduction | R_wheel_size | R_positionPid
  | R_rot_position_mode | R_rot_speed_mode | R_rot_position | R_rot_speed
  | R_target_rot_speed | R_target_rot_position | R_compliant
  | R_power_ratio_limit | R_temperature

datatype pyval =
    VBool bool | VNum real | VNonFinite nonfinite | VList "real list" | VStr string
  | VObj string

datatype error =
    ValueError string
  | AttributeError string
  | TypeError
  | ZeroDivisionError
  | HardwareIOError

datatype interp = Linear | MinimumJerk

record traj =
  traj_kind :: interp
  traj_start :: pyval
  traj_goal :: real
  traj_duration :: real

datatype event =
    EvRead handle reg
  | EvWrite handle reg pyval
  | EvSetToZero handle
  | EvSleep real
  | EvResetLastAngles
  | EvTrajStart traj
  | EvTrajWait traj

text \<open>
  The bus and the hardware behind it are not code of this module; they are a parameter.
  \<open>fails n\<close> says that the \<open>n\<close>-th access to the bus raises, and \<open>sensed n h r\<close> is the
  number that reading the sensor register \<open>r\<close> of handle \<open>h\<close> returns at access \<open>n\<close>.
  An access that raises changes nothing but the count of accesses: a write that fails
  leaves its register as it was.
\<close>

record hw =
  fails :: "nat \<Rightarrow> bool"
  sensed :: "nat \<Rightarrow> handle \<Rightarrow> reg \<Rightarrow> real"

text \<open>
  The kinematics model of the package \<open>orbita\<close> is a parameter as well: its two solvers
  may read and update the model's memory (of an arbitrary type \<open>'k\<close>), and
  \<open>reset_last_angles\<close> updates it.
\<close>

record 'k kinematics =
  get_angles_from_vector :: "'k \<Rightarrow> real list \<Rightarrow> real \<Rightarrow> real list \<times> 'k"
  get_angles_from_quaternion :: "'k \<Rightarrow> real \<Rightarrow> real \<Rightarrow> real \<Rightarrow> real \<Rightarrow> real list \<times> 'k"
  reset_last_angles :: "'k \<Rightarrow> 'k"

text \<open>
  The state: the fields of one \<open>OrbitaActuator\<close> object (\<open>disk_bottom\<close>, \<open>disk_middle\<close>,
  \<open>disk_top\<close>, \<open>model\<close>, \<open>_compliancy\<close>, \<open>_moving_speed\<close>), and the bus: \<open>regs (h, r)\<close> is the
  value last written to register \<open>r\<close> of handle \<open>h\<close>, \<open>ticks\<close> counts the accesses
  attempted so far, and \<open>log\<close> lists, in order, the accesses that succeeded, the
  sleeps, and the calls to the trajectory player and to the model's reset.
\<close>

record 'k state =
  disk_bottom :: handle
  disk_middle :: handle
  disk_top :: handle
  model :: 'k
  p_compliancy :: bool
  p_moving_speed :: real
  regs :: "handle \<times> reg \<Rightarrow> pyval"
  ticks :: nat
  log :: "event list"

type_synonym ('k, 'a) action = "'k state \<Rightarrow> (error + 'a) \<times> 'k state"

definition returnA :: "'a \<Rightarrow> ('k, 'a) action" where
  "returnA x = (\<lambda>s. (Inr x, s))"

definition raiseA :: "error \<Rightarrow> ('k, 'a) action" where
  "raiseA e = (\<lambda>s. (Inl e, s))"

definition bindA :: "('k, 'a) action \<Rightarrow> ('a \<Rightarrow> ('k, 'b) action) \<Rightarrow> ('k, 'b) action" where
  "bindA m f = (\<lambda>s. case m s of (Inl e, s') \<Rightarrow> (Inl e, s') | (Inr x, s') \<Rightarrow> f x s')"

definition thenA :: "('k, 'a) action \<Rightarrow> ('k, 'b) action \<Rightarrow> ('k, 'b) action" where
  "thenA m n = bindA m (\<lambda>_. n)"

text \<open>A \<open>for\<close> loop over a list, and a list comprehension whose element has effects.\<close>

fun forA :: "'a list \<Rightarrow> ('a \<Rightarrow> ('k, unit) action) \<Rightarrow> ('k, unit) action" where
  "forA [] f = returnA ()"
| "forA (x # xs) f = thenA (f x) (forA xs f)"

fun mapA :: "('a \<Rightarrow> ('k, 'b) action) \<Rightarrow> 'a list \<Rightarrow> ('k, 'b list) action" where
  "mapA f [] = returnA []"
| "mapA f (x # xs) = bindA (f x) (\<lambda>y. bindA (mapA f xs) (\<lambda>ys. returnA (y # ys)))"

text \<open>Attribute writes, attribute reads and \<open>setToZero()\<close> on a bus handle.\<close>

definition bus_write :: "hw \<Rightarrow> handle \<Rightarrow> reg \<Rightarrow> pyval \<Rightarrow> ('k, unit) action" where
  "bus_write b h r v = (\<lambda>s.
     if fails b (ticks s) then (Inl HardwareIOError, s\<lparr>ticks := Suc (ticks s)\<rparr>)
     else (Inr (), s\<lparr>regs := (regs s)((h, r) := v),
                     ticks := Suc (ticks s),
                     log := log s @ [EvWrite h r v]\<rparr>))"

definition bus_sense :: "hw \<Rightarrow> handle \<Rightarrow> reg \<Rightarrow> ('k, real) action" where
  "bus_sense b h r = (\<lambda>s.
     if fails b (ticks s) then (Inl HardwareIOError, s\<lparr>ticks := Suc (ticks s)\<rparr>)
     else (Inr (sensed b (ticks s) h r),
           s\<lparr>ticks := Suc (ticks s), log := log s @ [EvRead h r]\<rparr>))"

definition bus_get :: "hw \<Rightarrow> handle \<Rightarrow> reg \<Rightarrow> ('k, pyval) action" where
  "bus_get b h r = (\<lambda>s.
     if fails b (ticks s) then (Inl HardwareIOError, s\<lparr>ticks := Suc (ticks s)\<rparr>)
     else (Inr (regs s (h, r)),
           s\<lparr>ticks := Suc (ticks s), log := log s @ [EvRead h r]\<rparr>))"

definition setToZero :: "hw \<Rightarrow> handle \<Rightarrow> ('k, unit) action" where
  "setToZero b h = (\<lambda>s.
     if fails b (ticks s) then (Inl HardwareIOError, s\<lparr>ticks := Suc (ticks s)\<rparr>)
     else (Inr (), s\<lparr>ticks := Suc (ticks s), log := log s @ [EvSetToZero h]\<rparr>))"

text \<open>\<open>time.sleep\<close>: Python 3 raises \<open>ValueError\<close> on a negative length.\<close>

definition sleep :: "real \<Rightarrow> ('k, unit) action" where
  "sleep d = (\<lambda>s.
     if d < 0 then (Inl (ValueError ''sleep length must be non-negative''), s)
     else (Inr (), s\<lparr>log := log s @ [EvSleep d]\<rparr>))"

section \<open>DynamixelMotor\<close>

record motor =
  root_part_name :: string
  p_name :: string
  p_motor :: handle
  p_offset :: double
  p_direct :: bool

definition offset :: "motor \<Rightarrow> double" where
  "offset m = p_offset m"

definition is_direct :: "motor \<Rightarrow> bool" where
  "is_direct m = p_direct m"

definition as_local_pos :: "motor \<Rightarrow> double \<Rightarrow> double" where
  "as_local_pos m pos = dsub (if is_direct m then pos else dneg pos) (offset m)"

definition to_motor_pos :: "motor \<Rightarrow> double \<Rightarrow> double" where
  "to_motor_pos m pos = dmul (dadd pos (offset m)) (if is_direct m then Finite 1 else Finite (- 1))"

definition name :: "motor \<Rightarrow> string" where
  "name m = root_part_name m @ ''.'' @ p_name m"

text \<open>
  A double as a value, and arithmetic on a value read back from the bus: a number is
  the double nearest to it, a \<open>bool\<close> counts as 0 or 1, anything else raises \<open>TypeError\<close>.
  A position that the bus senses reaches the program as the double nearest to it.
\<close>

definition pyval_of :: "double \<Rightarrow> pyval" where
  "pyval_of x = (case x of Finite a \<Rightarrow> VNum a | NonFinite n \<Rightarrow> VNonFinite n)"

definition num_of :: "pyval \<Rightarrow> ('k, double) action" where
  "num_of v = (case v of
       VNum x \<Rightarrow> returnA (to_double x)
     | VNonFinite n \<Rightarrow> returnA (NonFinite n)
     | VBool b \<Rightarrow> returnA (Finite (if b then 1 else 0))
     | _ \<Rightarrow> raiseA TypeError)"

definition present_position :: "hw \<Rightarrow> motor \<Rightarrow> ('k, double) action" where
  "present_position b m =
     bindA (bus_sense b (p_motor m) R_rot_position)
       (\<lambda>pos. returnA (as_local_pos m (to_double pos)))"

definition goal_position :: "hw \<Rightarrow> motor \<Rightarrow> ('k, double) action" where
  "goal_position b m =
     bindA (bus_get b (p_motor m) R_target_rot_position) (\<lambda>v.
     bindA (num_of v) (\<lambda>pos. returnA (as_local_pos m pos)))"

definition set_goal_position :: "hw \<Rightarrow> motor \<Rightarrow> double \<Rightarrow> ('k, unit) action" where
  "set_goal_position b m val =
     bus_write b (p_motor m) R_target_rot_position (pyval_of (to_motor_pos m val))"

definition motor_moving_speed :: "hw \<Rightarrow> motor \<Rightarrow> ('k, pyval) action" where
  "motor_moving_speed b m = bus_get b (p_motor m) R_target_rot_speed"

definition motor_set_moving_speed :: "hw \<Rightarrow> motor \<Rightarrow> pyval \<Rightarrow> ('k, unit) action" where
  "motor_set_moving_speed b m val = bus_write b (p_motor m) R_target_rot_speed val"

definition motor_compliant :: "hw \<Rightarrow> motor \<Rightarrow> ('k, pyval) action" where
  "motor_compliant b m = bus_get b (p_motor m) R_compliant"

definition motor_set_compliant :: "hw \<Rightarrow> motor \<Rightarrow> pyval \<Rightarrow> ('k, unit) action" where
  "motor_set_compliant b m val = bus_write b (p_motor m) R_compliant val"

definition torque_limit :: "hw \<Rightarrow> motor \<Rightarrow> ('k, pyval) action" where
  "torque_limit b m = bus_get b (p_motor m) R_power_ratio_limit"

definition set_torque_limit :: "hw \<Rightarrow> motor \<Rightarrow> pyval \<Rightarrow> ('k, unit) action" where
  "set_torque_limit b m val = bus_write b (p_motor m) R_power_ratio_limit val"

definition temperature :: "hw \<Rightarrow> motor \<Rightarrow> ('k, real) action" where
  "temperature b m = bus_sense b (p_motor m) R_temperature"

text \<open>
  \<open>getattr(self, starting_point)\<close>: the properties run their getters, the instance
  fields give their values, and the methods and the attributes every object has are
  opaque objects. Any other name raises \<open>AttributeError\<close>.
\<close>

definition opaque_attributes :: "string list" where
  "opaque_attributes =
     [''_root_part'', ''_motor'', ''is_direct'', ''_as_local_pos'', ''_to_motor_pos'',
      ''goto'', ''__init__'', ''__repr__'', ''__class__'', ''__delattr__'', ''__dict__'',
      ''__dir__'', ''__doc__'', ''__eq__'', ''__format__'', ''__ge__'',
      ''__getattribute__'', ''__gt__'', ''__hash__'', ''__init_subclass__'', ''__le__'',
      ''__lt__'', ''__module__'', ''__ne__'', ''__new__'', ''__reduce__'',
      ''__reduce_ex__'', ''__setattr__'', ''__sizeof__'', ''__str__'',
      ''__subclasshook__'', ''__weakref__'', ''__getstate__'']"

definition getattr_motor :: "hw \<Rightarrow> motor \<Rightarrow> string \<Rightarrow> ('k, pyval) action" where
  "getattr_motor b m attr =
     (if attr = ''present_position''
        then bindA (present_position b m) (\<lambda>x. returnA (pyval_of x))
      else if attr = ''goal_position''
        then bindA (goal_position b m) (\<lambda>x. returnA (pyval_of x))
      else if attr = ''offset'' then returnA (pyval_of (offset m))
      else if attr = ''moving_speed'' then motor_moving_speed b m
      else if attr = ''compliant'' then motor_compliant b m
      else if attr = ''torque_limit'' then torque_limit b m
      else if attr = ''temperature'' then bindA (temperature b m) (\<lambda>x. returnA (VNum x))
      else if attr = ''name'' then returnA (VStr (name m))
      else if attr = ''_name'' then returnA (VStr (p_name m))
      else if attr = ''_offset'' then returnA (pyval_of (p_offset m))
      else if attr = ''_direct'' then returnA (VBool (p_direct m))
      else if attr \<in> set opaque_attributes then returnA (VObj attr)
      else raiseA (AttributeError attr))"

text \<open>
  The trajectory players \<open>Linear\<close> and \<open>MinimumJerk\<close> belong to another module; what
  \<open>start\<close> and \<open>wait\<close> do there is recorded as an event and nothing more.
\<close>

definition player_start :: "traj \<Rightarrow> ('k, unit) action" where
  "player_start t = (\<lambda>s. (Inr (), s\<lparr>log := log s @ [EvTrajStart t]\<rparr>))"

definition player_wait :: "traj \<Rightarrow> ('k, unit) action" where
  "player_wait t = (\<lambda>s. (Inr (), s\<lparr>log := log s @ [EvTrajWait t]\<rparr>))"

definition interpolations :: "(string \<times> interp) list" where
  "interpolations = [(''linear'', Linear), (''minjerk'', MinimumJerk)]"

text \<open>What an f-string prints for a tuple of two or more plain strings.\<close>

fun join :: "string \<Rightarrow> string list \<Rightarrow> string" where
  "join sep [] = []"
| "join sep [x] = x"
| "join sep (x # y # ys) = x @ sep @ join sep (y # ys)"

definition repr_tuple :: "string list \<Rightarrow> string" where
  "repr_tuple xs = ''('' @ join '', '' (map (\<lambda>x. [CHR 0x27] @ x @ [CHR 0x27]) xs) @ '')''"

definition goto :: "hw \<Rightarrow> motor \<Rightarrow> real \<Rightarrow> real \<Rightarrow> string \<Rightarrow> bool \<Rightarrow> string \<Rightarrow> ('k, traj) action" where
  "goto b m goal duration starting_point wait interpolation_mode =
     (case map_of interpolations interpolation_mode of
        None \<Rightarrow>
          raiseA (ValueError (''interpolation_mode should be one of ''
                              @ repr_tuple (map fst interpolations)))
      | Some cls \<Rightarrow>
          bindA (getattr_motor b m starting_point) (\<lambda>start.
            let traj_player = \<lparr>traj_kind = cls, traj_start = start,
                                traj_goal = goal, traj_duration = duration\<rparr>
            in thenA (player_start traj_player)
                 (thenA (if wait then player_wait traj_player else returnA ())
                    (returnA traj_player))))"

section \<open>OrbitaActuator\<close>

definition getsA :: "('k state \<Rightarrow> 'a) \<Rightarrow> ('k, 'a) action" where
  "getsA f = (\<lambda>s. (Inr (f s), s))"

definition modifyA :: "('k state \<Rightarrow> 'k state) \<Rightarrow> ('k, unit) action" where
  "modifyA f = (\<lambda>s. (Inr (), f s))"

text \<open>A block of statements.\<close>

fun seqA :: "('k, unit) action list \<Rightarrow> ('k, unit) action" where
  "seqA [] = returnA ()"
| "seqA (m # ms) = thenA m (seqA ms)"

definition disks :: "'k state \<Rightarrow> handle list" where
  "disks s = [disk_top s, disk_middle s, disk_bottom s]"

definition compliant :: "'k state \<Rightarrow> bool" where
  "compliant s = p_compliancy s"

definition set_compliant :: "hw \<Rightarrow> bool \<Rightarrow> ('k, unit) action" where
  "set_compliant b compliancy =
     thenA (modifyA (\<lambda>s. s\<lparr>p_compliancy := compliancy\<rparr>))
       (bindA (getsA disks) (\<lambda>ds.
          forA ds (\<lambda>d. bus_write b d R_compliant (VBool compliancy))))"

definition moving_speed :: "'k state \<Rightarrow> real" where
  "moving_speed s = p_moving_speed s"

definition set_moving_speed :: "hw \<Rightarrow> real \<Rightarrow> ('k, unit) action" where
  "set_moving_speed b speed =
     thenA (modifyA (\<lambda>s. s\<lparr>p_moving_speed := speed\<rparr>))
       (bindA (getsA disks) (\<lambda>ds.
          forA ds (\<lambda>d. bus_write b d R_target_rot_speed (VNum speed))))"

definition solve_vector :: "'k kinematics \<Rightarrow> real list \<Rightarrow> real \<Rightarrow> ('k, real list) action" where
  "solve_vector K vector angle = (\<lambda>s.
     case get_angles_from_vector K (model s) vector angle of
       (thetas, k') \<Rightarrow> (Inr thetas, s\<lparr>model := k'\<rparr>))"

datatype quaternion = Quaternion real real real real

definition solve_quaternion :: "'k kinematics \<Rightarrow> quaternion \<Rightarrow> ('k, real list) action" where
  "solve_quaternion K quat = (\<lambda>s.
     case quat of Quaternion qw qx qy qz \<Rightarrow>
       (case get_angles_from_quaternion K (model s) qw qx qy qz of
          (thetas, k') \<Rightarrow> (Inr thetas, s\<lparr>model := k'\<rparr>)))"

definition point_at :: "hw \<Rightarrow> 'k kinematics \<Rightarrow> real list \<Rightarrow> real \<Rightarrow> ('k, unit) action" where
  "point_at b K vector angle =
     bindA (solve_vector K vector angle) (\<lambda>thetas.
     bindA (getsA disks) (\<lambda>ds.
       forA (zip ds thetas) (\<lambda>(d, q). bus_write b d R_target_rot_position (VNum (- q)))))"

definition orient :: "hw \<Rightarrow> 'k kinematics \<Rightarrow> quaternion \<Rightarrow> real \<Rightarrow> bool \<Rightarrow> ('k, unit) action" where
  "orient b K quat duration wait =
     bindA (solve_quaternion K quat) (\<lambda>thetas0.
       let thetas = map uminus thetas0 in
       seqA [
         if duration > 0 then
           bindA (getsA disks) (\<lambda>ds.
           bindA (mapA (\<lambda>(d, q). bindA (bus_sense b d R_rot_position)
                                   (\<lambda>p. returnA (\<bar>q - p\<bar> / duration)))
                       (zip ds thetas)) (\<lambda>speeds.
           bindA (getsA disks) (\<lambda>ds'.
             forA (zip ds' speeds) (\<lambda>(d, sp). bus_write b d R_target_rot_speed (VNum sp)))))
         else returnA (),
         bindA (getsA disks) (\<lambda>ds.
           forA (zip ds thetas) (\<lambda>(d, q). bus_write b d R_target_rot_position (VNum q))),
         if wait then sleep duration else returnA ()
       ])"

definition setup_actuator :: "hw \<Rightarrow> pyval \<Rightarrow> pyval \<Rightarrow> pyval \<Rightarrow> pyval \<Rightarrow> real \<Rightarrow> ('k, unit) action" where
  "setup_actuator b pid reduction wheel_size encoder_res speed =
     bindA (getsA disks) (\<lambda>ds.
       forA ds (\<lambda>disk. seqA [
         bus_write b disk R_limit_current (VNum 0.4),
         bus_write b disk R_encoder_res encoder_res,
         bus_write b disk R_reduction reduction,
         bus_write b disk R_wheel_size wheel_size,
         bus_write b disk R_positionPid pid,
         bus_write b disk R_rot_position_mode (VBool True),
         bus_write b disk R_rot_speed_mode (VBool True),
         bus_write b disk R_rot_position (VBool True),
         bus_write b disk R_rot_speed (VBool True),
         setToZero b disk,
         sleep 0.1,
         bus_write b disk R_target_rot_speed (VNum speed)
       ]))"

text \<open>
  The constructor. Unpacking \<open>luos_disks_motor\<close> into three names raises \<open>ValueError\<close>
  unless it has exactly three elements.
\<close>

definition unpack_message :: "nat \<Rightarrow> string" where
  "unpack_message n =
     (if n < 3 then ''not enough values to unpack (expected 3, got '' @ [char_of (48 + n)] @ '')''
      else ''too many values to unpack (expected 3)'')"

definition OrbitaActuator_init ::
  "hw \<Rightarrow> handle list \<Rightarrow> 'k \<Rightarrow> pyval \<Rightarrow> pyval \<Rightarrow> pyval \<Rightarrow> pyval \<Rightarrow> ('k, unit) action" where
  "OrbitaActuator_init b luos_disks_motor new_model pid reduction wheel_size encoder_res =
     (case luos_disks_motor of
        [d0, d1, d2] \<Rightarrow>
          seqA [
            modifyA (\<lambda>s. s\<lparr>disk_bottom := d0, disk_middle := d1, disk_top := d2\<rparr>),
            modifyA (\<lambda>s. s\<lparr>model := new_model\<rparr>),
            modifyA (\<lambda>s. s\<lparr>p_compliancy := False\<rparr>),
            modifyA (\<lambda>s. s\<lparr>p_moving_speed := 50\<rparr>),
            bindA (getsA moving_speed) (\<lambda>sp. setup_actuator b pid reduction wheel_size encoder_res sp)
          ]
      | _ \<Rightarrow> raiseA (ValueError (unpack_message (length luos_disks_motor))))"

subsection \<open>Homing\<close>

text \<open>\<open>deque([], 10).append\<close>: the oldest element leaves when the deque is full.\<close>

definition deque_append :: "nat \<Rightarrow> 'a list \<Rightarrow> 'a \<Rightarrow> 'a list" where
  "deque_append maxlen dq x = (let dq' = dq @ [x] in drop (length dq' - maxlen) dq')"

text \<open>
  \<open>np.mean(rows, axis=0)\<close> for rows of one length, in doubles as \<open>numpy\<close> computes it:
  the rows are added one after the other, from the oldest on, each sum rounded, and the
  total is divided by the number of rows.
\<close>

definition mean_axis0 :: "double list list \<Rightarrow> double list" where
  "mean_axis0 rows = (case rows of
       [] \<Rightarrow> []
     | r # rs \<Rightarrow>
         map (\<lambda>x. ddiv_nat x (length rows)) (foldl (\<lambda>acc row. map2 dadd acc row) r rs))"

text \<open>
  The \<open>while True\<close> loop of \<open>homing\<close>. It has no bound, so it is a partial function:
  \<open>None\<close> is a loop that never leaves. The speeds it reads reach it as doubles.
\<close>

partial_function (option) stall_loop ::
  "hw \<Rightarrow> double list list \<Rightarrow> 'k state \<Rightarrow> ((error + unit) \<times> 'k state) option" where
  "stall_loop b recent_speed s =
     (case mapA (\<lambda>d. bus_sense b d R_rot_speed) (disks s) s of
        (Inl e, s') \<Rightarrow> Some (Inl e, s')
      | (Inr v, s') \<Rightarrow>
          let recent_speed' = deque_append 10 recent_speed (map to_double v);
              avg_speed = mean_axis0 recent_speed'
          in if list_all dge0 avg_speed then Some (Inr (), s')
             else (case sleep 0.01 s' of
                     (Inl e, s'') \<Rightarrow> Some (Inl e, s'')
                   | (Inr u, s'') \<Rightarrow> stall_loop b recent_speed' s''))"

definition homing ::
  "hw \<Rightarrow> 'k kinematics \<Rightarrow> real \<Rightarrow> real \<Rightarrow> real \<Rightarrow> 'k state \<Rightarrow> ((error + unit) \<times> 'k state) option" where
  "homing b K speed limit_pos target_pos s =
     (case seqA [
             bindA (getsA disks) (\<lambda>ds. forA ds (\<lambda>d. setToZero b d)),
             sleep 0.1,
             set_compliant b False,
             sleep 0.1,
             bindA (getsA disks) (\<lambda>ds. forA ds (\<lambda>d. seqA [
               bus_write b d R_target_rot_speed (VNum speed),
               bus_write b d R_target_rot_position (VNum limit_pos)])),
             sleep 1
           ] s of
        (Inl e, s1) \<Rightarrow> Some (Inl e, s1)
      | (Inr u, s1) \<Rightarrow>
          (case stall_loop b [] s1 of
             None \<Rightarrow> None
           | Some (Inl e, s2) \<Rightarrow> Some (Inl e, s2)
           | Some (Inr u, s2) \<Rightarrow>
               Some (seqA [
                 bindA (getsA disks) (\<lambda>ds. forA ds (\<lambda>d. setToZero b d)),
                 sleep 1,
                 bindA (getsA disks) (\<lambda>ds. forA ds (\<lambda>d.
                   bus_write b d R_target_rot_position (VNum target_pos))),
                 if speed = 0 then raiseA ZeroDivisionError
                 else sleep (target_pos / speed + 0.25),
                 bindA (getsA disks) (\<lambda>ds. forA ds (\<lambda>d. setToZero b d)),
                 sleep 0.1,
                 modifyA (\<lambda>s. s\<lparr>model := reset_last_angles K (model s),
                                 log := log s @ [EvResetLastAngles]\<rparr>),
                 orient b K (Quaternion 1 0 0 0) (- 1) True
               ] s2)))"

text \<open>Names for the two blocks of \<open>homing\<close>, before and after its loop.\<close>

abbreviation homing_before :: "hw \<Rightarrow> real \<Rightarrow> real \<Rightarrow> ('k, unit) action" where
  "homing_before b speed limit_pos \<equiv>
     seqA [
             bindA (getsA disks) (\<lambda>ds. forA ds (\<lambda>d. setToZero b d)),
             sleep 0.1,
             set_compliant b False,
             sleep 0.1,
             bindA (getsA disks) (\<lambda>ds. forA ds (\<lambda>d. seqA [
               bus_write b d R_target_rot_speed (VNum speed),
               bus_write b d R_target_rot_position (VNum limit_pos)])),
             sleep 1
           ]"

abbreviation homing_after :: "hw \<Rightarrow> 'k kinematics \<Rightarrow> real \<Rightarrow> real \<Rightarrow> ('k, unit) action" where
  "homing_after b K speed target_pos \<equiv>
     seqA [
                 bindA (getsA disks) (\<lambda>ds. forA ds (\<lambda>d. setToZero b d)),
                 sleep 1,
                 bindA (getsA disks) (\<lambda>ds. forA ds (\<lambda>d.
                   bus_write b d R_target_rot_position (VNum target_pos))),
                 if speed = 0 then raiseA ZeroDivisionError
                 else sleep (target_pos / speed + 0.25),
                 bindA (getsA disks) (\<lambda>ds. forA ds (\<lambda>d. setToZero b d)),
                 sleep 0.1,
                 modifyA (\<lambda>s. s\<lparr>model := reset_last_angles K (model s),
                                 log := log s @ [EvResetLastAngles]\<rparr>),
                 orient b K (Quaternion 1 0 0 0) (- 1) True
               ]"

section \<open>The stall detector, as the specification words it\<close>

text \<open>
  The velocities the loop reads in its \<open>k\<close>-th round (counted from 0) when it starts at
  bus access \<open>t\<close>: one double per disk, in the order of \<open>disks\<close>. The window after that
  round holds the last ten samples, or all of them while there are fewer. A disk's
  mean is the one computed in doubles: its samples in the window added from the oldest
  to the newest, divided by their number. The actuator is stalled when the mean of each
  of the three disks is non-negative.
\<close>

definition sample :: "hw \<Rightarrow> handle list \<Rightarrow> nat \<Rightarrow> nat \<Rightarrow> double list" where
  "sample b ds t k =
     map (\<lambda>(j, d). to_double (sensed b (t + 3 * k + j) d R_rot_speed)) (zip [0..<3] ds)"

definition window :: "hw \<Rightarrow> handle list \<Rightarrow> nat \<Rightarrow> nat \<Rightarrow> double list list" where
  "window b ds t k = map (sample b ds t) [Suc k - 10 ..< Suc k]"

definition window_mean :: "hw \<Rightarrow> handle list \<Rightarrow> nat \<Rightarrow> nat \<Rightarrow> nat \<Rightarrow> double" where
  "window_mean b ds t k j =
     (case map (\<lambda>row. row ! j) (window b ds t k) of
        [] \<Rightarrow> NonFinite NaN
      | x # xs \<Rightarrow> ddiv_nat (foldl dadd x xs) (length (x # xs)))"

definition stalled_at :: "hw \<Rightarrow> handle list \<Rightarrow> nat \<Rightarrow> nat \<Rightarrow> bool" where
  "stalled_at b ds t k = list_all (\<lambda>j. dge0 (window_mean b ds t k j)) [0..<3]"

text \<open>The events of polling: a read of a register, a sleep.\<close>

fun is_poll :: "event \<Rightarrow> bool" where
  "is_poll (EvRead h r) = True"
| "is_poll (EvSleep d) = True"
| "is_poll e = False"

section \<open>Fixtures\<close>

text \<open>
  A bus on which every access succeeds and every sensor reads 0, a bus whose second
  access fails, a bus whose sensors read \<open>- 1\<close> at the first three accesses and 0 later,
  a bus whose sensors always read \<open>- 1\<close>, a bus whose sensors read \<open>- 2.6\<close>, then \<open>0.6\<close>,
  then \<open>2\<close>, three accesses each, a stub of the kinematics model, an actuator on
  handles 1 (top), 2 (middle) and 3 (bottom), and three motors: one with offset 10, one
  with offset 0.1, and a direct one with a large offset whose last bits are set.
\<close>

definition quiet_bus :: hw where
  "quiet_bus = \<lparr>fails = (\<lambda>n. False), sensed = (\<lambda>n h r. 0)\<rparr>"

definition faulty_bus :: hw where
  "faulty_bus = \<lparr>fails = (\<lambda>n. n = 1), sensed = (\<lambda>n h r. 0)\<rparr>"

definition stale_bus :: hw where
  "stale_bus = \<lparr>fails = (\<lambda>n. False), sensed = (\<lambda>n h r. if n < 3 then - 1 else 0)\<rparr>"

definition moving_bus :: hw where
  "moving_bus = \<lparr>fails = (\<lambda>n. False), sensed = (\<lambda>n h r. - 1)\<rparr>"

definition rounding_bus :: hw where
  "rounding_bus = \<lparr>fails = (\<lambda>n. False),
                    sensed = (\<lambda>n h r. if n < 3 then - 2.6 else if n < 6 then 0.6 else 2)\<rparr>"

definition stub_model :: "unit kinematics" where
  "stub_model = \<lparr>get_angles_from_vector = (\<lambda>k v a. ([1, 2, 3], k)),
                  get_angles_from_quaternion = (\<lambda>k qw qx qy qz. ([- 1, 0, 0], k)),
                  reset_last_angles = (\<lambda>k. k)\<rparr>"

definition bench_state :: "unit state" where
  "bench_state = \<lparr>disk_bottom = 3, disk_middle = 2, disk_top = 1, model = (),
                   p_compliancy = False, p_moving_speed = 50,
                   regs = (\<lambda>(h, r). if r = R_compliant then VBool False else VNum 50),
                   ticks = 0, log = []\<rparr>"

definition bench_motor :: motor where
  "bench_motor = \<lparr>root_part_name = ''right_arm'', p_name = ''elbow'', p_motor = 7,
                   p_offset = Finite 10, p_direct = False\<rparr>"

definition wide_motor :: motor where
  "wide_motor = \<lparr>root_part_name = ''right_arm'', p_name = ''shoulder'', p_motor = 9,
                  p_offset = Finite (- ((2 ^ 53 - 3) * 8)), p_direct = True\<rparr>"

definition tenth_motor :: motor where
  "tenth_motor = \<lparr>root_part_name = ''right_arm'', p_name = ''wrist'', p_motor = 8,
                   p_offset = to_double 0.1, p_direct = False\<rparr>"

section \<open>Evaluating doubles\<close>

lemmas double_eval = to_double_def fl_def fl_abs_def floor_log2_def round_even_def pow2_def
  Let_def compute_bitlen dsub_def

lemma fl_minus: "fl (- x) = - fl x"
  by (simp add: fl_def)

lemma to_double_minus: "to_double (- x) = dneg (to_double x)"
  by (simp add: to_double_def fl_minus Let_def)

section \<open>The frame transform\<close>

text \<open>
  C3, as the code has it. \<open>_as_local_pos\<close> is \<open>(direct ? r : -r) - offset\<close> and
  \<open>_to_motor_pos\<close> is \<open>(v + offset) * (direct ? 1 : -1)\<close>, each computed in doubles.
  When \<open>r\<close> is a double and the subtraction in \<open>_as_local_pos\<close> is exact (the double it
  gives is the real difference), going to the local frame and back gives \<open>r\<close>, and going
  to the local frame once more gives the first local value. With \<open>direct = False\<close> and
  \<open>offset = 10\<close>, raw 40 is local -50 and local -50 is raw 40.
\<close>

theorem frame_transform_roundtrip_when_exact:
  assumes rd: "to_double r = Finite r"
    and od: "offset m = Finite off"
    and ex: "to_double ((if is_direct m then r else - r) - off)
               = Finite ((if is_direct m then r else - r) - off)"
  shows "as_local_pos m pos = dsub (if is_direct m then pos else dneg pos) (offset m)
       \<and> to_motor_pos m v
           = dmul (dadd v (offset m)) (if is_direct m then Finite 1 else Finite (- 1))
       \<and> as_local_pos m (Finite r) = Finite ((if is_direct m then r else - r) - off)
       \<and> to_motor_pos m (as_local_pos m (Finite r)) = Finite r
       \<and> as_local_pos m (to_motor_pos m (as_local_pos m (Finite r))) = as_local_pos m (Finite r)
       \<and> as_local_pos bench_motor (Finite 40) = Finite (- 50)
       \<and> to_motor_pos bench_motor (Finite (- 50)) = Finite 40"
proof -
  have loc: "as_local_pos m (Finite r) = Finite ((if is_direct m then r else - r) - off)"
    using ex by (cases "is_direct m") (simp_all add: as_local_pos_def od dsub_def)
  have there: "to_motor_pos m (Finite ((if is_direct m then r else - r) - off)) = Finite r"
    using rd by (cases "is_direct m") (simp_all add: to_motor_pos_def od to_double_minus)
  have example: "as_local_pos bench_motor (Finite 40) = Finite (- 50)"
    "to_motor_pos bench_motor (Finite (- 50)) = Finite 40"
    by (simp_all add: as_local_pos_def to_motor_pos_def is_direct_def offset_def bench_motor_def
          double_eval)
  show ?thesis
    using loc there example by (simp add: as_local_pos_def to_motor_pos_def)
qed

theorem frame_transform_roundtrip_when_exact_witness:
  "as_local_pos bench_motor (Finite 40) = Finite (- 40 - 10)
   \<and> to_motor_pos bench_motor (as_local_pos bench_motor (Finite 40)) = Finite 40
   \<and> as_local_pos bench_motor (to_motor_pos bench_motor (as_local_pos bench_motor (Finite 40)))
       = as_local_pos bench_motor (Finite 40)"
proof -
  have rd: "to_double 40 = Finite 40"
    by (simp add: double_eval)
  have od: "offset bench_motor = Finite 10"
    by (simp add: offset_def bench_motor_def)
  have ex: "to_double ((if is_direct bench_motor then 40 else - 40) - 10)
              = Finite ((if is_direct bench_motor then 40 else - 40) - 10)"
    by (simp add: is_direct_def bench_motor_def double_eval)
  have ind: "\<not> is_direct bench_motor"
    by (simp add: is_direct_def bench_motor_def)
  note t = frame_transform_roundtrip_when_exact [OF rd od ex]
  from t [THEN conjunct2, THEN conjunct2, THEN conjunct1] ind
  have a: "as_local_pos bench_motor (Finite 40) = Finite (- 40 - 10)" by simp
  from a t [THEN conjunct2, THEN conjunct2, THEN conjunct2, THEN conjunct1]
    t [THEN conjunct2, THEN conjunct2, THEN conjunct2, THEN conjunct2, THEN conjunct1]
  show ?thesis by (intro conjI)
qed

text \<open>
  C3 as the specification words it fails where the subtraction rounds. With offset 0.1
  and an indirect motor, raw 4 is local -4.1 (the double nearest to it) and comes back
  as \<open>4 - 2 ^ - 51\<close>, the double just below 4. With the direct motor of the large offset,
  going to the local frame, back and to the local frame again gives \<open>- (2 ^ 56 - 8)\<close>
  where the first local value was \<open>- 2 ^ 56\<close>.
\<close>

theorem frame_transform_roundtrip_rounds:
  "to_double 4 = Finite 4
   \<and> as_local_pos tenth_motor (Finite 4) = Finite (- (2308094809027379 / 2 ^ 49))
   \<and> to_motor_pos tenth_motor (as_local_pos tenth_motor (Finite 4)) = Finite (4 - 1 / 2 ^ 51)
   \<and> to_motor_pos tenth_motor (as_local_pos tenth_motor (Finite 4)) \<noteq> Finite 4
   \<and> to_double (- ((2 ^ 53 - 1) * 16)) = Finite (- ((2 ^ 53 - 1) * 16))
   \<and> as_local_pos wide_motor (Finite (- ((2 ^ 53 - 1) * 16))) = Finite (- (2 ^ 56))
   \<and> as_local_pos wide_motor (to_motor_pos wide_motor
         (as_local_pos wide_motor (Finite (- ((2 ^ 53 - 1) * 16))))) = Finite (- (2 ^ 56 - 8))
   \<and> as_local_pos wide_motor (to_motor_pos wide_motor
         (as_local_pos wide_motor (Finite (- ((2 ^ 53 - 1) * 16)))))
       \<noteq> as_local_pos wide_motor (Finite (- ((2 ^ 53 - 1) * 16)))"
  by (simp add: as_local_pos_def to_motor_pos_def is_direct_def offset_def tenth_motor_def
        wide_motor_def double_eval)

section \<open>Running actions\<close>

lemmas action_defs = returnA_def raiseA_def bindA_def thenA_def getsA_def modifyA_def
  bus_write_def bus_sense_def bus_get_def setToZero_def sleep_def

section \<open>The order of the disks\<close>

text \<open>
  C1, as the code has it. The constructor unpacks its three handles as bottom, middle,
  top, so \<open>disks\<close> is the list of the third, the second and the first handle given:
  the first handle is the bottom disk, not the top one. On a bus that never fails
  the construction succeeds.
\<close>

theorem disks_reverse_constructor_order:
  assumes ok: "\<forall>n. \<not> fails b n"
  shows "fst (OrbitaActuator_init b [d0, d1, d2] m pid red ws er s) = Inr ()
       \<and> disks (snd (OrbitaActuator_init b [d0, d1, d2] m pid red ws er s)) = [d2, d1, d0]
       \<and> disk_top (snd (OrbitaActuator_init b [d0, d1, d2] m pid red ws er s)) = d2
       \<and> disk_middle (snd (OrbitaActuator_init b [d0, d1, d2] m pid red ws er s)) = d1
       \<and> disk_bottom (snd (OrbitaActuator_init b [d0, d1, d2] m pid red ws er s)) = d0"
  using ok
  by (simp add: OrbitaActuator_init_def setup_actuator_def disks_def moving_speed_def action_defs)

theorem disks_reverse_constructor_order_witness:
  "fst (OrbitaActuator_init quiet_bus [1, 2, 3] () (VList [1, 0, 0]) (VNum 77) (VNum 62) (VNum 3)
          bench_state) = Inr ()
   \<and> disks (snd (OrbitaActuator_init quiet_bus [1, 2, 3] () (VList [1, 0, 0]) (VNum 77) (VNum 62)
          (VNum 3) bench_state)) = [3, 2, 1]"
proof -
  have ok: "\<forall>n. \<not> fails quiet_bus n"
    by (simp add: quiet_bus_def)
  from disks_reverse_constructor_order [OF ok, of 1 2 3 "()" "VList [1, 0, 0]" "VNum 77" "VNum 62"
      "VNum 3" bench_state]
  show ?thesis by simp
qed

text \<open>
  C1 as the specification words it fails: constructed from the handles 1, 2, 3, the
  actuator's \<open>disks\<close> is not \<open>[1, 2, 3]\<close>.
\<close>

theorem disks_not_constructor_order:
  "fst (OrbitaActuator_init quiet_bus [1, 2, 3] () (VList [1, 0, 0]) (VNum 77) (VNum 62) (VNum 3)
          bench_state) = Inr ()
   \<and> disks (snd (OrbitaActuator_init quiet_bus [1, 2, 3] () (VList [1, 0, 0]) (VNum 77) (VNum 62)
          (VNum 3) bench_state)) \<noteq> [1, 2, 3]"
  by (simp add: OrbitaActuator_init_def setup_actuator_def disks_def moving_speed_def action_defs
        quiet_bus_def bench_state_def)

section \<open>Choosing the interpolation\<close>

text \<open>
  C2, as the code has it. \<open>goto\<close> looks the interpolation mode up among the keys
  \<open>linear\<close> and \<open>minjerk\<close>. Any other name raises \<open>ValueError\<close> with a message that
  lists these two keys, and the state is the one before the call: no access to the bus
  was attempted and nothing was logged. A name among the two never raises \<open>ValueError\<close>.
\<close>

theorem goto_resolves_interpolation_mode:
  "(interpolation_mode \<notin> {''linear'', ''minjerk''} \<longrightarrow>
      goto b m goal duration starting_point wait interpolation_mode s
        = (Inl (ValueError ''interpolation_mode should be one of ('linear', 'minjerk')''), s))
   \<and> (interpolation_mode \<in> {''linear'', ''minjerk''} \<longrightarrow>
      (\<forall>msg. fst (goto b m goal duration starting_point wait interpolation_mode s)
                \<noteq> Inl (ValueError msg)))"
  by (auto simp add: goto_def interpolations_def repr_tuple_def getattr_motor_def
        present_position_def goal_position_def motor_moving_speed_def motor_compliant_def
        torque_limit_def temperature_def num_of_def player_start_def player_wait_def
        action_defs Let_def split: pyval.splits)

theorem goto_resolves_interpolation_mode_witness:
  "goto quiet_bus bench_motor 30 2 ''present_position'' False ''bogus'' bench_state
     = (Inl (ValueError ''interpolation_mode should be one of ('linear', 'minjerk')''),
        bench_state)
   \<and> fst (goto quiet_bus bench_motor 30 2 ''present_position'' False ''linear'' bench_state)
       \<noteq> Inl (ValueError ''interpolation_mode should be one of ('linear', 'minjerk')'')"
proof -
  have bad: "''bogus'' \<notin> {''linear'', ''minjerk''}" by simp
  have good: "''linear'' \<in> {''linear'', ''minjerk''}" by simp
  note rejected = goto_resolves_interpolation_mode [of "''bogus''" quiet_bus bench_motor 30 2
      "''present_position''" False bench_state, THEN conjunct1, THEN mp, OF bad]
  note accepted = goto_resolves_interpolation_mode [of "''linear''" quiet_bus bench_motor 30 2
      "''present_position''" False bench_state, THEN conjunct2, THEN mp, OF good, THEN spec,
      of "''interpolation_mode should be one of ('linear', 'minjerk')''"]
  from rejected accepted show ?thesis by (intro conjI)
qed

text \<open>
  C2 as the specification words it fails: \<open>minjerk\<close> is not in the set
  \<open>{linear, minimum-jerk}\<close>, yet \<open>goto\<close> accepts it and returns a minimum-jerk player;
  \<open>minimum-jerk\<close> is in that set, yet \<open>goto\<close> rejects it.
\<close>

theorem goto_minimum_jerk_name:
  "''minjerk'' \<notin> {''linear'', ''minimum-jerk''}
   \<and> fst (goto quiet_bus bench_motor 30 2 ''present_position'' False ''minjerk'' bench_state)
       = Inr \<lparr>traj_kind = MinimumJerk, traj_start = VNum (- 10), traj_goal = 30,
              traj_duration = 2\<rparr>
   \<and> ''minimum-jerk'' \<in> {''linear'', ''minimum-jerk''}
   \<and> goto quiet_bus bench_motor 30 2 ''present_position'' False ''minimum-jerk'' bench_state
       = (Inl (ValueError ''interpolation_mode should be one of ('linear', 'minjerk')''),
          bench_state)"
  by (simp add: goto_def interpolations_def repr_tuple_def getattr_motor_def present_position_def
        as_local_pos_def is_direct_def offset_def player_start_def player_wait_def
        pyval_of_def double_eval action_defs quiet_bus_def bench_motor_def bench_state_def)

section \<open>Pointing\<close>

text \<open>
  C8. When the solver returns \<open>[a1, a2, a3]\<close> and the bus does not fail, \<open>point_at\<close>
  succeeds and what it adds to the log is exactly three writes of the target position:
  \<open>- a1\<close> to the top disk, \<open>- a2\<close> to the middle disk, \<open>- a3\<close> to the bottom disk, in the
  order of \<open>disks\<close>. With a stub solver that returns \<open>[1, 2, 3]\<close> the disks receive
  \<open>- 1\<close>, \<open>- 2\<close> and \<open>- 3\<close>.
\<close>

theorem point_at_writes_negated_angles:
  assumes ok: "\<forall>n. \<not> fails b n"
    and sol: "get_angles_from_vector K (model s) vector angle = ([a1, a2, a3], k')"
  shows "fst (point_at b K vector angle s) = Inr ()
       \<and> log (snd (point_at b K vector angle s))
           = log s @ [EvWrite (disk_top s) R_target_rot_position (VNum (- a1)),
                      EvWrite (disk_middle s) R_target_rot_position (VNum (- a2)),
                      EvWrite (disk_bottom s) R_target_rot_position (VNum (- a3))]
       \<and> disks s = [disk_top s, disk_middle s, disk_bottom s]"
  using ok sol by (simp add: point_at_def solve_vector_def disks_def action_defs)

theorem point_at_writes_negated_angles_witness:
  "fst (point_at quiet_bus stub_model [0, 0, 1] 0 bench_state) = Inr ()
   \<and> log (snd (point_at quiet_bus stub_model [0, 0, 1] 0 bench_state))
       = [EvWrite 1 R_target_rot_position (VNum (- 1)),
          EvWrite 2 R_target_rot_position (VNum (- 2)),
          EvWrite 3 R_target_rot_position (VNum (- 3))]"
proof -
  have ok: "\<forall>n. \<not> fails quiet_bus n"
    by (simp add: quiet_bus_def)
  have sol: "get_angles_from_vector stub_model (model bench_state) [0, 0, 1] 0 = ([1, 2, 3], ())"
    by (simp add: stub_model_def)
  from point_at_writes_negated_angles [OF ok sol]
  show ?thesis by (simp add: bench_state_def)
qed

section \<open>Orienting\<close>

text \<open>
  C7. When \<open>duration > 0\<close>, the solver returns \<open>[a1, a2, a3]\<close> and the bus does not fail,
  \<open>orient\<close> reads the position of each disk, then writes to each disk the target speed
  \<open>\<bar>target - position\<bar> / duration\<close>, where the target is the negated solver angle, and
  only then writes the target positions. Each speed is non-negative. A disk at 0 with
  target 1 and duration 2 gets the speed \<open>1 / 2\<close>.
\<close>

theorem orient_sets_speed_before_position:
  assumes ok: "\<forall>n. \<not> fails b n"
    and sol: "get_angles_from_quaternion K (model s) qw qx qy qz = ([a1, a2, a3], k')"
    and dur: "duration > 0"
  shows "fst (orient b K (Quaternion qw qx qy qz) duration wait s) = Inr ()
       \<and> log (snd (orient b K (Quaternion qw qx qy qz) duration wait s))
           = log s @ [EvRead (disk_top s) R_rot_position,
                      EvRead (disk_middle s) R_rot_position,
                      EvRead (disk_bottom s) R_rot_position,
                      EvWrite (disk_top s) R_target_rot_speed
                        (VNum (\<bar>- a1 - sensed b (ticks s) (disk_top s) R_rot_position\<bar>
                               / duration)),
                      EvWrite (disk_middle s) R_target_rot_speed
                        (VNum (\<bar>- a2 - sensed b (ticks s + 1) (disk_middle s) R_rot_position\<bar>
                               / duration)),
                      EvWrite (disk_bottom s) R_target_rot_speed
                        (VNum (\<bar>- a3 - sensed b (ticks s + 2) (disk_bottom s) R_rot_position\<bar>
                               / duration)),
                      EvWrite (disk_top s) R_target_rot_position (VNum (- a1)),
                      EvWrite (disk_middle s) R_target_rot_position (VNum (- a2)),
                      EvWrite (disk_bottom s) R_target_rot_position (VNum (- a3))]
                   @ (if wait then [EvSleep duration] else [])
       \<and> 0 \<le> \<bar>- a1 - sensed b (ticks s) (disk_top s) R_rot_position\<bar> / duration
       \<and> 0 \<le> \<bar>- a2 - sensed b (ticks s + 1) (disk_middle s) R_rot_position\<bar> / duration
       \<and> 0 \<le> \<bar>- a3 - sensed b (ticks s + 2) (disk_bottom s) R_rot_position\<bar> / duration"
  using ok sol dur by (simp add: orient_def solve_quaternion_def disks_def action_defs)

theorem orient_sets_speed_before_position_witness:
  "fst (orient quiet_bus stub_model (Quaternion 1 0 0 0) 2 False bench_state) = Inr ()
   \<and> log (snd (orient quiet_bus stub_model (Quaternion 1 0 0 0) 2 False bench_state))
       = [EvRead 1 R_rot_position, EvRead 2 R_rot_position, EvRead 3 R_rot_position,
          EvWrite 1 R_target_rot_speed (VNum (1 / 2)),
          EvWrite 2 R_target_rot_speed (VNum 0),
          EvWrite 3 R_target_rot_speed (VNum 0),
          EvWrite 1 R_target_rot_position (VNum 1),
          EvWrite 2 R_target_rot_position (VNum 0),
          EvWrite 3 R_target_rot_position (VNum 0)]"
proof -
  have ok: "\<forall>n. \<not> fails quiet_bus n"
    by (simp add: quiet_bus_def)
  have sol: "get_angles_from_quaternion stub_model (model bench_state) 1 0 0 0 = ([- 1, 0, 0], ())"
    by (simp add: stub_model_def)
  have dur: "(2::real) > 0" by simp
  from orient_sets_speed_before_position [OF ok sol dur, of False]
  show ?thesis by (simp add: bench_state_def quiet_bus_def)
qed

text \<open>
  C6, where the code departs from it. \<open>orient\<close> sleeps whenever \<open>wait\<close> is true, whatever
  the duration: with a negative duration (the default is \<open>- 1\<close>) and \<open>wait\<close> true, it
  writes the three target positions and then raises the \<open>ValueError\<close> of \<open>time.sleep\<close>.
\<close>

theorem orient_wait_negative_duration_raises:
  assumes ok: "\<forall>n. \<not> fails b n"
    and sol: "get_angles_from_quaternion K (model s) qw qx qy qz = ([a1, a2, a3], k')"
    and dur: "duration < 0"
  shows "fst (orient b K (Quaternion qw qx qy qz) duration True s)
           = Inl (ValueError ''sleep length must be non-negative'')
       \<and> log (snd (orient b K (Quaternion qw qx qy qz) duration True s))
           = log s @ [EvWrite (disk_top s) R_target_rot_position (VNum (- a1)),
                      EvWrite (disk_middle s) R_target_rot_position (VNum (- a2)),
                      EvWrite (disk_bottom s) R_target_rot_position (VNum (- a3))]"
  using ok sol dur by (simp add: orient_def solve_quaternion_def disks_def action_defs)

theorem orient_wait_negative_duration_raises_witness:
  "fst (orient quiet_bus stub_model (Quaternion 1 0 0 0) (- 1) True bench_state)
     = Inl (ValueError ''sleep length must be non-negative'')
   \<and> log (snd (orient quiet_bus stub_model (Quaternion 1 0 0 0) (- 1) True bench_state))
       = [EvWrite 1 R_target_rot_position (VNum 1),
          EvWrite 2 R_target_rot_position (VNum 0),
          EvWrite 3 R_target_rot_position (VNum 0)]"
proof -
  have ok: "\<forall>n. \<not> fails quiet_bus n"
    by (simp add: quiet_bus_def)
  have sol: "get_angles_from_quaternion stub_model (model bench_state) 1 0 0 0 = ([- 1, 0, 0], ())"
    by (simp add: stub_model_def)
  have dur: "(- 1::real) < 0" by simp
  from orient_wait_negative_duration_raises [OF ok sol dur]
  show ?thesis by (simp add: bench_state_def)
qed

section \<open>Stall detection\<close>

text \<open>
  The mean along axis 0 is, column by column, the samples of the column added from the
  first row on and divided by the number of rows.
\<close>

lemma foldl_map2_dadd:
  "length r = n \<Longrightarrow> \<forall>row \<in> set rs. length row = n \<Longrightarrow>
   foldl (\<lambda>acc row. map2 dadd acc row) r rs
     = map (\<lambda>j. foldl dadd (r ! j) (map (\<lambda>row. row ! j) rs)) [0..<n]"
proof (induction rs arbitrary: r)
  case Nil
  from Nil.prems(1) [symmetric] show ?case by (simp add: map_nth)
next
  case (Cons x xs)
  have len: "length (map2 dadd r x) = n" using Cons.prems by simp
  have "foldl (\<lambda>acc row. map2 dadd acc row) (map2 dadd r x) xs
          = map (\<lambda>j. foldl dadd ((map2 dadd r x) ! j) (map (\<lambda>row. row ! j) xs)) [0..<n]"
    using Cons.IH [OF len] Cons.prems by simp
  also have "\<dots> = map (\<lambda>j. foldl dadd (r ! j) (map (\<lambda>row. row ! j) (x # xs))) [0..<n]"
    using Cons.prems by (intro map_cong) auto
  finally show ?case by simp
qed

lemma mean_axis0_columns:
  assumes len: "\<forall>row \<in> set (r # rs). length row = n"
  shows "mean_axis0 (r # rs)
           = map (\<lambda>j. ddiv_nat (foldl dadd (r ! j) (map (\<lambda>row. row ! j) rs)) (Suc (length rs)))
               [0..<n]"
proof -
  from len have "foldl (\<lambda>acc row. map2 dadd acc row) r rs
      = map (\<lambda>j. foldl dadd (r ! j) (map (\<lambda>row. row ! j) rs)) [0..<n]"
    by (intro foldl_map2_dadd) auto
  then show ?thesis by (simp add: mean_axis0_def)
qed

lemma length_sample: "length ds = 3 \<Longrightarrow> length (sample b ds t k) = 3"
  by (simp add: sample_def)

lemma stalled_at_mean_axis0:
  assumes ds: "length ds = 3"
  shows "list_all dge0 (mean_axis0 (window b ds t k)) = stalled_at b ds t k"
proof -
  have "window b ds t k \<noteq> []" by (simp add: window_def)
  then obtain r rs where w: "window b ds t k = r # rs"
    by (cases "window b ds t k") auto
  have "\<forall>row \<in> set (window b ds t k). length row = 3"
    using ds by (auto simp: window_def length_sample)
  then have len: "\<forall>row \<in> set (r # rs). length row = 3"
    by (simp only: w)
  show ?thesis
    unfolding stalled_at_def window_mean_def w mean_axis0_columns [OF len]
    by (simp add: list_all_iff)
qed

lemma deque_append_window:
  "deque_append 10 (map f [i - 10 ..< i]) (f i) = map f [Suc i - 10 ..< Suc i]"
proof -
  have "map f [i - 10 ..< i] @ [f i] = map f [i - 10 ..< Suc i]" by simp
  moreover have shift: "i - 10 + (Suc i - (i - 10) - 10) = Suc i - 10" by arith
  have "drop (Suc i - (i - 10) - 10) [i - 10 ..< Suc i] = [Suc i - 10 ..< Suc i]"
    by (simp only: drop_upt shift)
  ultimately show ?thesis
    by (simp add: deque_append_def Let_def drop_map del: upt_Suc)
qed


lemma read_speeds:
  assumes ok: "\<forall>n. \<not> fails b n"
  shows "\<exists>v. mapA (\<lambda>d. bus_sense b d R_rot_speed) (disks s) s
               = (Inr v, s\<lparr>ticks := ticks s + 3,
                            log := log s @ map (\<lambda>d. EvRead d R_rot_speed) (disks s)\<rparr>)
           \<and> map to_double v = sample b (disks s) (ticks s) 0"
  using ok
  by (simp add: disks_def sample_def action_defs upt_rec [of 0] upt_rec [of 1] upt_rec [of 2]
        numeral_3_eq_3)

lemma sample_shift: "sample b ds (t + 3 * i) 0 = sample b ds t i"
  by (simp add: sample_def)

lemma length_disks: "length (disks s) = 3"
  by (simp add: disks_def)

lemma stall_loop_step:
  assumes ok: "\<forall>n. \<not> fails b n" and tk: "ticks s = t + 3 * i"
  shows "stall_loop b (map (sample b (disks s) t) [i - 10 ..< i]) s
           = (if stalled_at b (disks s) t i
              then Some (Inr (), s\<lparr>ticks := ticks s + 3,
                                    log := log s @ map (\<lambda>d. EvRead d R_rot_speed) (disks s)\<rparr>)
              else stall_loop b (map (sample b (disks s) t) [Suc i - 10 ..< Suc i])
                     (s\<lparr>ticks := ticks s + 3,
                        log := log s @ map (\<lambda>d. EvRead d R_rot_speed) (disks s)
                                 @ [EvSleep (1 / 100)]\<rparr>))"
proof -
  have w: "deque_append 10 (map (sample b (disks s) t) [i - 10 ..< i]) (sample b (disks s) t i)
            = window b (disks s) t i"
    by (simp only: deque_append_window window_def)
  have unfold: "map (sample b (disks s) t) [Suc i - 10 ..< Suc i] = window b (disks s) t i"
    by (simp only: window_def)
  from read_speeds [OF ok, of s] obtain v
    where rd: "mapA (\<lambda>d. bus_sense b d R_rot_speed) (disks s) s
               = (Inr v, s\<lparr>ticks := ticks s + 3,
                            log := log s @ map (\<lambda>d. EvRead d R_rot_speed) (disks s)\<rparr>)"
      and v: "map to_double v = sample b (disks s) t i"
    by (auto simp: tk sample_shift)
  show ?thesis
    unfolding unfold
    by (subst stall_loop.simps)
       (simp add: rd v w Let_def sleep_def stalled_at_mean_axis0 [OF length_disks])
qed

lemma stall_loop_leaves:
  assumes ok: "\<forall>n. \<not> fails b n"
  shows "stalled_at b (disks s) t k \<Longrightarrow>
         (\<forall>i'. i \<le> i' \<and> i' < k \<longrightarrow> \<not> stalled_at b (disks s) t i') \<Longrightarrow>
         i \<le> k \<Longrightarrow> ticks s = t + 3 * i \<Longrightarrow>
         \<exists>l. stall_loop b (map (sample b (disks s) t) [i - 10 ..< i]) s
                = Some (Inr (), s\<lparr>ticks := t + 3 * Suc k, log := log s @ l\<rparr>)
             \<and> list_all is_poll l"
proof (induction "k - i" arbitrary: i s)
  case 0
  then have ik: "i = k" by simp
  have st: "stalled_at b (disks s) t i" using "0.prems"(1) ik by simp
  have "stall_loop b (map (sample b (disks s) t) [i - 10 ..< i]) s
          = Some (Inr (), s\<lparr>ticks := ticks s + 3,
                             log := log s @ map (\<lambda>d. EvRead d R_rot_speed) (disks s)\<rparr>)"
    using st by (simp only: stall_loop_step [OF ok "0.prems"(4)] if_True)
  moreover have "list_all is_poll (map (\<lambda>d. EvRead d R_rot_speed) (disks s))"
    by (simp add: list_all_iff)
  moreover have "ticks s + 3 = t + 3 * Suc k" using "0.prems"(4) ik by simp
  ultimately show ?case by (intro exI [of _ "map (\<lambda>d. EvRead d R_rot_speed) (disks s)"]) simp
next
  case (Suc n)
  then have lt: "i < k" by simp
  define s' where "s' = s\<lparr>ticks := ticks s + 3,
       log := log s @ map (\<lambda>d. EvRead d R_rot_speed) (disks s) @ [EvSleep (1 / 100)]\<rparr>"
  have nst: "\<not> stalled_at b (disks s) t i" using Suc.prems(2) lt by simp
  have step: "stall_loop b (map (sample b (disks s) t) [i - 10 ..< i]) s
          = stall_loop b (map (sample b (disks s) t) [Suc i - 10 ..< Suc i]) s'"
    unfolding s'_def using nst by (simp only: stall_loop_step [OF ok Suc.prems(4)] if_False)
  have d': "disks s' = disks s" by (simp add: s'_def disks_def)
  have "\<exists>l. stall_loop b (map (sample b (disks s') t) [Suc i - 10 ..< Suc i]) s'
                = Some (Inr (), s'\<lparr>ticks := t + 3 * Suc k, log := log s' @ l\<rparr>)
             \<and> list_all is_poll l"
  proof (rule Suc.hyps(1))
    show "n = k - Suc i" using Suc.hyps(2) by simp
    show "stalled_at b (disks s') t k" using Suc.prems(1) by (simp add: d')
    show "\<forall>i'. Suc i \<le> i' \<and> i' < k \<longrightarrow> \<not> stalled_at b (disks s') t i'"
      using Suc.prems(2) by (simp add: d')
    show "Suc i \<le> k" using lt by simp
    show "ticks s' = t + 3 * Suc i" using Suc.prems(4) by (simp add: s'_def)
  qed
  then obtain l where l: "stall_loop b (map (sample b (disks s) t) [Suc i - 10 ..< Suc i]) s'
                = Some (Inr (), s'\<lparr>ticks := t + 3 * Suc k, log := log s' @ l\<rparr>)"
      and pl: "list_all is_poll l" by (auto simp: d')
  have "s'\<lparr>ticks := t + 3 * Suc k, log := log s' @ l\<rparr>
         = s\<lparr>ticks := t + 3 * Suc k,
             log := log s @ (map (\<lambda>d. EvRead d R_rot_speed) (disks s) @ [EvSleep (1 / 100)] @ l)\<rparr>"
    by (simp add: s'_def)
  moreover have "list_all is_poll (map (\<lambda>d. EvRead d R_rot_speed) (disks s) @ [EvSleep (1 / 100)] @ l)"
    using pl by (auto simp: list_all_iff)
  ultimately show ?case using step l
    by (intro exI [of _ "map (\<lambda>d. EvRead d R_rot_speed) (disks s) @ [EvSleep (1 / 100)] @ l"]) simp
qed

lemma stall_loop_returns:
  assumes ret: "stall_loop b w s = Some r"
  shows "(\<forall>n. \<not> fails b n) \<longrightarrow>
         (\<forall>t i. ticks s = t + 3 * i \<and> w = map (sample b (disks s) t) [i - 10 ..< i]
           \<longrightarrow> (\<exists>k\<ge>i. stalled_at b (disks s) t k))"
proof (rule stall_loop.raw_induct [where P = "\<lambda>b w s r. (\<forall>n. \<not> fails b n) \<longrightarrow>
         (\<forall>t i. ticks s = t + 3 * i \<and> w = map (sample b (disks s) t) [i - 10 ..< i]
           \<longrightarrow> (\<exists>k\<ge>i. stalled_at b (disks s) t k))", OF _ ret])
  fix f b w and s :: "'a state" and r
  assume IH: "\<And>b w (s :: 'a state) r. f b w s = Some r \<Longrightarrow> (\<forall>n. \<not> fails b n) \<longrightarrow>
         (\<forall>t i. ticks s = t + 3 * i \<and> w = map (sample b (disks s) t) [i - 10 ..< i]
           \<longrightarrow> (\<exists>k\<ge>i. stalled_at b (disks s) t k))"
    and eq: "(case mapA (\<lambda>d. bus_sense b d R_rot_speed) (disks s) s of
        (Inl e, s') \<Rightarrow> Some (Inl e, s')
      | (Inr v, s') \<Rightarrow>
          let recent_speed' = deque_append 10 w (map to_double v);
              avg_speed = mean_axis0 recent_speed'
          in if list_all dge0 avg_speed then Some (Inr (), s')
             else (case sleep 0.01 s' of
                     (Inl e, s'') \<Rightarrow> Some (Inl e, s'')
                   | (Inr u, s'') \<Rightarrow> f b recent_speed' s'')) = Some r"
  show "(\<forall>n. \<not> fails b n) \<longrightarrow>
         (\<forall>t i. ticks s = t + 3 * i \<and> w = map (sample b (disks s) t) [i - 10 ..< i]
           \<longrightarrow> (\<exists>k\<ge>i. stalled_at b (disks s) t k))"
  proof (intro impI allI, elim conjE)
    fix t i
    assume ok: "\<forall>n. \<not> fails b n" and tk: "ticks s = t + 3 * i"
      and w: "w = map (sample b (disks s) t) [i - 10 ..< i]"
    define s' where "s' = s\<lparr>ticks := ticks s + 3,
       log := log s @ map (\<lambda>d. EvRead d R_rot_speed) (disks s) @ [EvSleep (1 / 100)]\<rparr>"
    have dq: "deque_append 10 (map (sample b (disks s) t) [i - 10 ..< i]) (sample b (disks s) t i)
            = window b (disks s) t i"
      by (simp only: deque_append_window window_def)
    show "\<exists>k\<ge>i. stalled_at b (disks s) t k"
    proof (cases "stalled_at b (disks s) t i")
      case True
      then show ?thesis by blast
    next
      case False
      from read_speeds [OF ok, of s] obtain v
        where rd: "mapA (\<lambda>d. bus_sense b d R_rot_speed) (disks s) s
               = (Inr v, s\<lparr>ticks := ticks s + 3,
                            log := log s @ map (\<lambda>d. EvRead d R_rot_speed) (disks s)\<rparr>)"
          and v: "map to_double v = sample b (disks s) t i"
        by (auto simp: tk sample_shift)
      from eq False have "f b (window b (disks s) t i) s' = Some r"
        by (simp add: rd v w dq Let_def sleep_def
              stalled_at_mean_axis0 [OF length_disks] s'_def)
      moreover have "disks s' = disks s" by (simp add: s'_def disks_def)
      moreover have "ticks s' = t + 3 * Suc i" by (simp add: s'_def tk)
      moreover have "window b (disks s) t i = map (sample b (disks s) t) [Suc i - 10 ..< Suc i]"
        by (simp only: window_def)
      ultimately have "\<exists>k\<ge>Suc i. stalled_at b (disks s) t k"
        using IH [of b "window b (disks s) t i" s' r] ok by (metis)
      then show ?thesis by (meson Suc_leD)
    qed
  qed
qed



section \<open>The blocks of homing around its loop\<close>

lemma homing_before_ok:
  assumes ok: "\<forall>n. \<not> fails b n"
  shows "fst (homing_before b speed limit_pos s) = Inr ()"
    and "p_compliancy (snd (homing_before b speed limit_pos s)) = False"
    and "p_moving_speed (snd (homing_before b speed limit_pos s)) = p_moving_speed s"
    and "model (snd (homing_before b speed limit_pos s)) = model s"
    and "disk_top (snd (homing_before b speed limit_pos s)) = disk_top s"
    and "disk_middle (snd (homing_before b speed limit_pos s)) = disk_middle s"
    and "disk_bottom (snd (homing_before b speed limit_pos s)) = disk_bottom s"
    and "disks (snd (homing_before b speed limit_pos s)) = disks s"
    and "ticks (snd (homing_before b speed limit_pos s)) = ticks s + 12"
    and "count_list (log (snd (homing_before b speed limit_pos s))) EvResetLastAngles
           = count_list (log s) EvResetLastAngles"
    and "\<forall>d \<in> set (disks s).
           regs (snd (homing_before b speed limit_pos s)) (d, R_target_rot_speed) = VNum speed"
  using ok by (simp_all add: set_compliant_def disks_def action_defs)

lemma count_poll: "list_all is_poll l \<Longrightarrow> count_list l EvResetLastAngles = 0"
  by (induction l) auto

lemma homing_outcome:
  assumes ok: "\<forall>n. \<not> fails b n"
    and st: "stalled_at b (disks s) (ticks s + 12) k"
  shows "\<exists>T l. list_all is_poll l \<and>
           homing b K speed limit_pos target_pos s
             = Some (homing_after b K speed target_pos
                 ((snd (homing_before b speed limit_pos s))
                    \<lparr>ticks := T, log := log (snd (homing_before b speed limit_pos s)) @ l\<rparr>))"
proof -
  define s1 where "s1 = snd (homing_before b speed limit_pos s)"
  have before: "homing_before b speed limit_pos s = (Inr (), s1)"
    using homing_before_ok(1) [OF ok, of speed limit_pos s] by (simp add: s1_def prod_eq_iff)
  have d1: "disks s1 = disks s"
    unfolding s1_def by (rule homing_before_ok(8) [OF ok])
  have t1: "ticks s1 = ticks s + 12"
    unfolding s1_def by (rule homing_before_ok(9) [OF ok])
  from st obtain k0 where st0: "stalled_at b (disks s1) (ticks s1) k0"
      and least: "\<forall>i<k0. \<not> stalled_at b (disks s1) (ticks s1) i"
    using exists_least_iff [of "\<lambda>k. stalled_at b (disks s) (ticks s + 12) k"]
    unfolding d1 t1 by blast
  from least have "\<forall>i'. 0 \<le> i' \<and> i' < k0 \<longrightarrow> \<not> stalled_at b (disks s1) (ticks s1) i'"
    by simp
  with stall_loop_leaves [OF ok st0, of 0]
  obtain l where loop: "stall_loop b [] s1
        = Some (Inr (), s1\<lparr>ticks := ticks s1 + 3 * Suc k0, log := log s1 @ l\<rparr>)"
    and pl: "list_all is_poll l"
    by auto
  have "homing b K speed limit_pos target_pos s
          = Some (homing_after b K speed target_pos
                    (s1\<lparr>ticks := ticks s1 + 3 * Suc k0, log := log s1 @ l\<rparr>))"
    unfolding homing_def before by (simp add: loop)
  with pl show ?thesis unfolding s1_def by blast
qed


lemma stall_loop_never:
  assumes ok: "\<forall>n. \<not> fails b n"
  shows "stall_loop b [] s = None \<longleftrightarrow> (\<forall>k. \<not> stalled_at b (disks s) (ticks s) k)"
proof
  assume none: "stall_loop b [] s = None"
  show "\<forall>k. \<not> stalled_at b (disks s) (ticks s) k"
  proof (intro allI notI)
    fix k
    assume "stalled_at b (disks s) (ticks s) k"
    then obtain k0 where st: "stalled_at b (disks s) (ticks s) k0"
      and least: "\<forall>i<k0. \<not> stalled_at b (disks s) (ticks s) i"
      using exists_least_iff [of "\<lambda>k. stalled_at b (disks s) (ticks s) k"] by blast
    from stall_loop_leaves [OF ok st, of 0] least
    obtain l where "stall_loop b (map (sample b (disks s) (ticks s)) [0 - 10 ..< 0]) s
                = Some (Inr (), s\<lparr>ticks := ticks s + 3 * Suc k0, log := log s @ l\<rparr>)"
      by auto
    with none show False by simp
  qed
next
  assume never: "\<forall>k. \<not> stalled_at b (disks s) (ticks s) k"
  show "stall_loop b [] s = None"
  proof (cases "stall_loop b [] s")
    case None
    then show ?thesis .
  next
    case (Some r)
    from stall_loop_returns [OF Some, THEN mp, OF ok, THEN spec, THEN spec, of "ticks s" 0]
    have "\<exists>k\<ge>0. stalled_at b (disks s) (ticks s) k" by simp
    with never show ?thesis by blast
  qed
qed

lemma stall_loop_first:
  assumes ok: "\<forall>n. \<not> fails b n"
    and st: "stalled_at b (disks s) (ticks s) k"
    and first: "list_all (\<lambda>i. \<not> stalled_at b (disks s) (ticks s) i) [0..<k]"
  shows "\<exists>l. stall_loop b [] s
                = Some (Inr (), s\<lparr>ticks := ticks s + 3 * Suc k, log := log s @ l\<rparr>)
            \<and> list_all is_poll l"
proof -
  from first have "\<forall>i'. 0 \<le> i' \<and> i' < k \<longrightarrow> \<not> stalled_at b (disks s) (ticks s) i'"
    by (auto simp: list_all_iff)
  from stall_loop_leaves [OF ok st this, of ] show ?thesis by simp
qed

lemma homing_never:
  assumes ok: "\<forall>n. \<not> fails b n"
  shows "homing b K speed limit_pos target_pos s = None
           \<longleftrightarrow> (\<forall>k. \<not> stalled_at b (disks s) (ticks s + 12) k)"
proof
  assume none: "homing b K speed limit_pos target_pos s = None"
  show "\<forall>k. \<not> stalled_at b (disks s) (ticks s + 12) k"
  proof (intro allI notI)
    fix k
    assume "stalled_at b (disks s) (ticks s + 12) k"
    from homing_outcome [OF ok this, of K speed limit_pos target_pos] none
    show False by auto
  qed
next
  assume never: "\<forall>k. \<not> stalled_at b (disks s) (ticks s + 12) k"
  define s1 where "s1 = snd (homing_before b speed limit_pos s)"
  have before: "homing_before b speed limit_pos s = (Inr (), s1)"
    using homing_before_ok(1) [OF ok, of speed limit_pos s] by (simp add: s1_def prod_eq_iff)
  have d1: "disks s1 = disks s"
    unfolding s1_def by (rule homing_before_ok(8) [OF ok])
  have t1: "ticks s1 = ticks s + 12"
    unfolding s1_def by (rule homing_before_ok(9) [OF ok])
  from never have "stall_loop b [] s1 = None"
    by (simp add: stall_loop_never [OF ok] d1 t1)
  then show "homing b K speed limit_pos target_pos s = None"
    unfolding homing_def before by simp
qed

text \<open>
  C5. On a bus that does not fail, the loop of \<open>homing\<close> never returns exactly when the
  window mean of some disk is negative (or not a number) after every round: it has no
  bound of its own, and then \<open>homing\<close> never returns either. The loop leaves after round
  \<open>k\<close>, having read \<open>k + 1\<close> samples of each disk and done nothing but reads and sleeps,
  when \<open>k\<close> is the first round after which the mean over the window of the last ten
  samples, as computed in doubles, is non-negative for each of the three disks. What
  was sampled more than ten rounds ago is not in the window. The mean is the computed
  one: on the readings \<open>- 2.6\<close>, \<open>0.6\<close>, \<open>2\<close> the sum of the three doubles rounds to 0 and
  the loop leaves after the third round, though their exact mean is below 0.
\<close>

theorem stall_loop_leaves_when_window_mean_nonnegative:
  assumes ok: "\<forall>n. \<not> fails b n"
  shows "(stall_loop b [] s = None \<longleftrightarrow> (\<forall>k. \<not> stalled_at b (disks s) (ticks s) k))
       \<and> (\<forall>k. stalled_at b (disks s) (ticks s) k
              \<and> list_all (\<lambda>i. \<not> stalled_at b (disks s) (ticks s) i) [0..<k] \<longrightarrow>
            (\<exists>l. stall_loop b [] s
                    = Some (Inr (), s\<lparr>ticks := ticks s + 3 * Suc k, log := log s @ l\<rparr>)
                \<and> list_all is_poll l))
       \<and> (homing b K speed limit_pos target_pos s = None
            \<longleftrightarrow> (\<forall>k. \<not> stalled_at b (disks s) (ticks s + 12) k))"
  using stall_loop_never [OF ok, of s] stall_loop_first [OF ok, of s]
    homing_never [OF ok, of K speed limit_pos target_pos s]
  by (intro conjI allI impI) blast+

lemmas stalled_eval = stalled_at_def window_mean_def window_def sample_def disks_def
  upt_conv_Cons double_eval

theorem stall_loop_leaves_when_window_mean_nonnegative_witness:
  "(\<exists>l. stall_loop rounding_bus [] bench_state
           = Some (Inr (), bench_state\<lparr>ticks := 9, log := l\<rparr>)
        \<and> list_all is_poll l)
   \<and> (\<exists>l. stall_loop stale_bus [] bench_state
           = Some (Inr (), bench_state\<lparr>ticks := 33, log := l\<rparr>)
        \<and> list_all is_poll l)
   \<and> stall_loop moving_bus [] bench_state = None
   \<and> homing moving_bus stub_model 50 (- 270) 102 bench_state = None
   \<and> (fl (- 2.6) + fl 0.6 + fl 2) / 3 < 0"
proof -
  have exact: "(fl (- 2.6) + fl 0.6 + fl 2) / 3 < 0"
    by (simp add: double_eval)
  have ok_r: "\<forall>n. \<not> fails rounding_bus n"
    by (simp add: rounding_bus_def)
  have at2: "stalled_at rounding_bus (disks bench_state) (ticks bench_state) 2"
    by (simp add: stalled_eval rounding_bus_def bench_state_def)
  have before2:
    "list_all (\<lambda>i. \<not> stalled_at rounding_bus (disks bench_state) (ticks bench_state) i) [0..<2]"
    by (simp add: stalled_eval rounding_bus_def bench_state_def)
  from stall_loop_leaves_when_window_mean_nonnegative [OF ok_r, where s = bench_state
      and K = stub_model and speed = 50 and limit_pos = "- 270" and target_pos = 102,
      THEN conjunct2, THEN conjunct1, THEN spec, of 2] at2 before2
  have rounds: "\<exists>l. stall_loop rounding_bus [] bench_state
           = Some (Inr (), bench_state\<lparr>ticks := 9, log := l\<rparr>)
        \<and> list_all is_poll l"
    by (simp add: bench_state_def)
  have ok_s: "\<forall>n. \<not> fails stale_bus n"
    by (simp add: stale_bus_def)
  have at10: "stalled_at stale_bus (disks bench_state) (ticks bench_state) 10"
    by (simp add: stalled_eval stale_bus_def bench_state_def)
  have before10:
    "list_all (\<lambda>i. \<not> stalled_at stale_bus (disks bench_state) (ticks bench_state) i) [0..<10]"
    by (simp add: stalled_eval stale_bus_def bench_state_def)
  from stall_loop_leaves_when_window_mean_nonnegative [OF ok_s, where s = bench_state
      and K = stub_model and speed = 50 and limit_pos = "- 270" and target_pos = 102,
      THEN conjunct2, THEN conjunct1, THEN spec, of 10] at10 before10
  have leaves: "\<exists>l. stall_loop stale_bus [] bench_state
           = Some (Inr (), bench_state\<lparr>ticks := 33, log := l\<rparr>)
        \<and> list_all is_poll l"
    by (simp add: bench_state_def)
  have ok_m: "\<forall>n. \<not> fails moving_bus n"
    by (simp add: moving_bus_def)
  have small: "list_all (\<lambda>m. \<not> dge0 (ddiv_nat (foldl dadd (Finite (- 1))
      (replicate m (Finite (- 1)))) (Suc m))) [0..<10]"
    by (simp add: double_eval upt_conv_Cons numeral_eq_Suc)
  have never: "\<not> stalled_at moving_bus (disks bench_state) t k" for t k
  proof -
    have row: "sample moving_bus (disks bench_state) t i ! 0 = Finite (- 1)" for i
      by (simp add: sample_def moving_bus_def bench_state_def disks_def upt_conv_Cons
            double_eval)
    obtain m where m: "length [Suc k - 10 ..< Suc k] = Suc m" and m10: "m < 10"
      by (cases "length [Suc k - 10 ..< Suc k]") auto
    have "map (\<lambda>row. row ! 0) (window moving_bus (disks bench_state) t k)
            = replicate (Suc m) (Finite (- 1))"
      unfolding window_def map_map comp_def row m [symmetric] by (rule map_replicate_const)
    then have "window_mean moving_bus (disks bench_state) t k 0
            = ddiv_nat (foldl dadd (Finite (- 1)) (replicate m (Finite (- 1)))) (Suc m)"
      by (simp add: window_mean_def)
    moreover from small m10
    have "\<not> dge0 (ddiv_nat (foldl dadd (Finite (- 1)) (replicate m (Finite (- 1)))) (Suc m))"
      by (simp add: list_all_iff)
    ultimately show ?thesis
      by (simp add: stalled_at_def upt_conv_Cons)
  qed
  note t = stall_loop_leaves_when_window_mean_nonnegative [OF ok_m, where s = bench_state
      and K = stub_model and speed = 50 and limit_pos = "- 270" and target_pos = 102]
  from t [THEN conjunct1] never
  have loop: "stall_loop moving_bus [] bench_state = None" by simp
  from t [THEN conjunct2, THEN conjunct2] never
  have home: "homing moving_bus stub_model 50 (- 270) 102 bench_state = None" by simp
  from rounds leaves loop home exact show ?thesis by (intro conjI)
qed

section \<open>A write that fails in the middle of a setter\<close>

lemma set_compliant_partial:
  assumes k: "k < 3"
    and before: "\<forall>j<k. \<not> fails b (ticks s + j)"
    and at: "fails b (ticks s + k)"
    and dist: "distinct (disks s)"
  shows "fst (set_compliant b c s) = Inl HardwareIOError
       \<and> compliant (snd (set_compliant b c s)) = c
       \<and> (\<forall>j<k. regs (snd (set_compliant b c s)) (disks s ! j, R_compliant) = VBool c)
       \<and> (\<forall>j. k \<le> j \<and> j < 3 \<longrightarrow>
             regs (snd (set_compliant b c s)) (disks s ! j, R_compliant)
               = regs s (disks s ! j, R_compliant))"
proof -
  from k have "k = 0 \<or> k = 1 \<or> k = 2" by arith
  then show ?thesis
  proof (elim disjE)
    assume "k = 0"
    with at show ?thesis
      by (simp add: set_compliant_def compliant_def disks_def action_defs)
  next
    assume k1: "k = 1"
    with before at have "\<not> fails b (ticks s)" "fails b (Suc (ticks s))" by simp_all
    with k1 dist show ?thesis
      by (simp add: set_compliant_def compliant_def disks_def action_defs less_Suc_eq nth_Cons')
  next
    assume k2: "k = 2"
    with before at have "\<not> fails b (ticks s)" "\<not> fails b (Suc (ticks s))" "fails b (Suc (Suc (ticks s)))"
      by (simp_all add: less_Suc_eq numeral_2_eq_2)
    with k2 dist show ?thesis
      by (auto simp add: set_compliant_def compliant_def disks_def action_defs less_Suc_eq nth_Cons' numeral_2_eq_2 numeral_3_eq_3)
  qed
qed

lemma set_moving_speed_partial:
  assumes k: "k < 3"
    and before: "\<forall>j<k. \<not> fails b (ticks s + j)"
    and at: "fails b (ticks s + k)"
    and dist: "distinct (disks s)"
  shows "fst (set_moving_speed b v s) = Inl HardwareIOError
       \<and> moving_speed (snd (set_moving_speed b v s)) = v
       \<and> (\<forall>j<k. regs (snd (set_moving_speed b v s)) (disks s ! j, R_target_rot_speed) = VNum v)
       \<and> (\<forall>j. k \<le> j \<and> j < 3 \<longrightarrow>
             regs (snd (set_moving_speed b v s)) (disks s ! j, R_target_rot_speed)
               = regs s (disks s ! j, R_target_rot_speed))"
proof -
  from k have "k = 0 \<or> k = 1 \<or> k = 2" by arith
  then show ?thesis
  proof (elim disjE)
    assume "k = 0"
    with at show ?thesis
      by (simp add: set_moving_speed_def moving_speed_def disks_def action_defs)
  next
    assume k1: "k = 1"
    with before at have "\<not> fails b (ticks s)" "fails b (Suc (ticks s))" by simp_all
    with k1 dist show ?thesis
      by (simp add: set_moving_speed_def moving_speed_def disks_def action_defs less_Suc_eq nth_Cons')
  next
    assume k2: "k = 2"
    with before at have "\<not> fails b (ticks s)" "\<not> fails b (Suc (ticks s))" "fails b (Suc (Suc (ticks s)))"
      by (simp_all add: less_Suc_eq numeral_2_eq_2)
    with k2 dist show ?thesis
      by (auto simp add: set_moving_speed_def moving_speed_def disks_def action_defs less_Suc_eq nth_Cons' numeral_2_eq_2 numeral_3_eq_3)
  qed
qed

text \<open>
  C9. The setters of \<open>compliant\<close> and \<open>moving_speed\<close> store the new value in the
  actuator before they write to any disk. When the write to disk number \<open>k\<close> (0 for
  top, 1 for middle, 2 for bottom) is the first that fails, the setter raises, the
  cached value is the new one, the disks before \<open>k\<close> hold the new value and the disks
  from \<open>k\<close> on hold what they held before: the cache may disagree with the disks.
\<close>

theorem setters_cache_before_partial_write:
  assumes k: "k < 3"
    and before: "\<forall>j<k. \<not> fails b (ticks s + j)"
    and at: "fails b (ticks s + k)"
    and dist: "distinct (disks s)"
  shows "fst (set_compliant b c s) = Inl HardwareIOError
       \<and> compliant (snd (set_compliant b c s)) = c
       \<and> (\<forall>j<k. regs (snd (set_compliant b c s)) (disks s ! j, R_compliant) = VBool c)
       \<and> (\<forall>j. k \<le> j \<and> j < 3 \<longrightarrow>
             regs (snd (set_compliant b c s)) (disks s ! j, R_compliant)
               = regs s (disks s ! j, R_compliant))
       \<and> fst (set_moving_speed b v s) = Inl HardwareIOError
       \<and> moving_speed (snd (set_moving_speed b v s)) = v
       \<and> (\<forall>j<k. regs (snd (set_moving_speed b v s)) (disks s ! j, R_target_rot_speed) = VNum v)
       \<and> (\<forall>j. k \<le> j \<and> j < 3 \<longrightarrow>
             regs (snd (set_moving_speed b v s)) (disks s ! j, R_target_rot_speed)
               = regs s (disks s ! j, R_target_rot_speed))"
  using set_compliant_partial [OF k before at dist, of c]
    set_moving_speed_partial [OF k before at dist, of v]
  by (elim conjE) (intro conjI; assumption)

theorem setters_cache_before_partial_write_witness:
  "fst (set_compliant faulty_bus True bench_state) = Inl HardwareIOError
   \<and> compliant (snd (set_compliant faulty_bus True bench_state)) = True
   \<and> regs (snd (set_compliant faulty_bus True bench_state)) (1, R_compliant) = VBool True
   \<and> regs (snd (set_compliant faulty_bus True bench_state)) (2, R_compliant) = VBool False
   \<and> regs (snd (set_compliant faulty_bus True bench_state)) (3, R_compliant) = VBool False
   \<and> fst (set_moving_speed faulty_bus 20 bench_state) = Inl HardwareIOError
   \<and> moving_speed (snd (set_moving_speed faulty_bus 20 bench_state)) = 20
   \<and> regs (snd (set_moving_speed faulty_bus 20 bench_state)) (1, R_target_rot_speed) = VNum 20
   \<and> regs (snd (set_moving_speed faulty_bus 20 bench_state)) (2, R_target_rot_speed) = VNum 50
   \<and> regs (snd (set_moving_speed faulty_bus 20 bench_state)) (3, R_target_rot_speed) = VNum 50"
proof -
  have k: "(1::nat) < 3" by simp
  have before: "\<forall>j<1. \<not> fails faulty_bus (ticks bench_state + j)"
    by (simp add: faulty_bus_def bench_state_def)
  have at: "fails faulty_bus (ticks bench_state + 1)"
    by (simp add: faulty_bus_def bench_state_def)
  have dist: "distinct (disks bench_state)"
    by (simp add: disks_def bench_state_def)
  have d: "disks bench_state ! 0 = 1" "disks bench_state ! Suc 0 = 2" "disks bench_state ! 2 = 3"
    by (simp_all add: disks_def bench_state_def)
  have old: "regs bench_state (2, R_compliant) = VBool False"
    "regs bench_state (3, R_compliant) = VBool False"
    "regs bench_state (2, R_target_rot_speed) = VNum 50"
    "regs bench_state (3, R_target_rot_speed) = VNum 50"
    by (simp_all add: bench_state_def)
  note t = setters_cache_before_partial_write [OF k before at dist, of True 20]
  note t1 = t [THEN conjunct1]
  note t2 = t [THEN conjunct2, THEN conjunct1]
  note t3 = t [THEN conjunct2, THEN conjunct2, THEN conjunct1, THEN spec, of 0]
  note t4 = t [THEN conjunct2, THEN conjunct2, THEN conjunct2, THEN conjunct1]
  note t5 = t [THEN conjunct2, THEN conjunct2, THEN conjunct2, THEN conjunct2, THEN conjunct1]
  note t6 = t [THEN conjunct2, THEN conjunct2, THEN conjunct2, THEN conjunct2, THEN conjunct2,
      THEN conjunct1]
  note t7 = t [THEN conjunct2, THEN conjunct2, THEN conjunct2, THEN conjunct2, THEN conjunct2,
      THEN conjunct2, THEN conjunct1, THEN spec, of 0]
  note t8 = t [THEN conjunct2, THEN conjunct2, THEN conjunct2, THEN conjunct2, THEN conjunct2,
      THEN conjunct2, THEN conjunct2]
  from t3 have c1: "regs (snd (set_compliant faulty_bus True bench_state)) (1, R_compliant)
      = VBool True"
    by (simp add: d)
  from t4 [THEN spec, of 1] have c2:
    "regs (snd (set_compliant faulty_bus True bench_state)) (2, R_compliant) = VBool False"
    by (simp add: d old)
  from t4 [THEN spec, of 2] have c3:
    "regs (snd (set_compliant faulty_bus True bench_state)) (3, R_compliant) = VBool False"
    by (simp add: d old)
  from t7 have m1:
    "regs (snd (set_moving_speed faulty_bus 20 bench_state)) (1, R_target_rot_speed) = VNum 20"
    by (simp add: d)
  from t8 [THEN spec, of 1] have m2:
    "regs (snd (set_moving_speed faulty_bus 20 bench_state)) (2, R_target_rot_speed) = VNum 50"
    by (simp add: d old)
  from t8 [THEN spec, of 2] have m3:
    "regs (snd (set_moving_speed faulty_bus 20 bench_state)) (3, R_target_rot_speed) = VNum 50"
    by (simp add: d old)
  from t1 t2 c1 c2 c3 t5 t6 m1 m2 m3 show ?thesis by (intro conjI)
qed

section \<open>Homing from end to end\<close>

lemma homing_after_raises:
  assumes ok: "\<forall>n. \<not> fails b n"
    and sp: "speed \<noteq> 0"
    and pos: "0 \<le> target_pos / speed + 1 / 4"
    and sol: "get_angles_from_quaternion K (reset_last_angles K (model s)) 1 0 0 0
                = ([a1, a2, a3], k')"
  shows "fst (homing_after b K speed target_pos s)
           = Inl (ValueError ''sleep length must be non-negative'')"
    and "p_compliancy (snd (homing_after b K speed target_pos s)) = p_compliancy s"
    and "log (snd (homing_after b K speed target_pos s))
           = log s @ [EvSetToZero (disk_top s), EvSetToZero (disk_middle s),
                      EvSetToZero (disk_bottom s), EvSleep 1,
                      EvWrite (disk_top s) R_target_rot_position (VNum target_pos),
                      EvWrite (disk_middle s) R_target_rot_position (VNum target_pos),
                      EvWrite (disk_bottom s) R_target_rot_position (VNum target_pos),
                      EvSleep (target_pos / speed + 1 / 4),
                      EvSetToZero (disk_top s), EvSetToZero (disk_middle s),
                      EvSetToZero (disk_bottom s), EvSleep (1 / 10),
                      EvResetLastAngles,
                      EvWrite (disk_top s) R_target_rot_position (VNum (- a1)),
                      EvWrite (disk_middle s) R_target_rot_position (VNum (- a2)),
                      EvWrite (disk_bottom s) R_target_rot_position (VNum (- a3))]"
  using ok sp pos sol
  by (simp_all add: orient_def solve_quaternion_def disks_def action_defs)

lemma homing_after_keeps_speed:
  assumes ok: "\<forall>n. \<not> fails b n"
    and sol: "get_angles_from_quaternion K (reset_last_angles K (model s)) 1 0 0 0
                = ([a1, a2, a3], k')"
  shows "p_moving_speed (snd (homing_after b K speed target_pos s)) = p_moving_speed s"
    and "regs (snd (homing_after b K speed target_pos s)) (d, R_target_rot_speed)
           = regs s (d, R_target_rot_speed)"
  using ok sol
  by (simp_all add: orient_def solve_quaternion_def disks_def action_defs)


lemma seqA_last_raises:
  "ms \<noteq> [] \<Longrightarrow> (\<forall>s. fst (last ms s) \<noteq> Inr ()) \<Longrightarrow> fst (seqA ms s) \<noteq> Inr ()"
proof (induction ms arbitrary: s)
  case Nil
  then show ?case by simp
next
  case (Cons m ms)
  show ?case
  proof (cases "ms = []")
    case True
    with Cons.prems have "fst (m s) \<noteq> Inr ()" by simp
    with True show ?thesis
      by (cases "m s") (auto simp: thenA_def bindA_def returnA_def split: sum.splits)
  next
    case False
    with Cons.prems have "\<forall>s. fst (last ms s) \<noteq> Inr ()" by simp
    with Cons.IH False have "\<And>s. fst (seqA ms s) \<noteq> Inr ()" by blast
    then show ?thesis
      by (cases "m s") (auto simp: thenA_def bindA_def split: sum.splits)
  qed
qed

lemma orient_negative_wait_raises:
  assumes "duration < 0"
  shows "fst (orient b K q duration True s) \<noteq> Inr ()"
proof -
  have "\<forall>s. fst (sleep duration s) \<noteq> Inr ()"
    using assms by (simp add: sleep_def)
  then have "\<And>m1 m2 s. fst (seqA [m1, m2, if True then sleep duration else returnA ()] s) \<noteq> Inr ()"
    by (intro seqA_last_raises) simp_all
  then show ?thesis
    unfolding orient_def Let_def
    by (cases "solve_quaternion K q s") (auto simp: bindA_def simp del: seqA.simps split: sum.splits)
qed

lemma homing_never_returns_normally:
  "homing b K speed limit_pos target_pos s \<noteq> Some (Inr (), s')"
proof
  assume ret: "homing b K speed limit_pos target_pos s = Some (Inr (), s')"
  define after where "after = homing_after b K speed target_pos"
  have "\<forall>s. fst (orient b K (Quaternion 1 0 0 0) (- 1) True s) \<noteq> Inr ()"
    by (intro allI orient_negative_wait_raises) simp
  then have "fst (after s) \<noteq> Inr ()" for s
    unfolding after_def by (intro seqA_last_raises) simp_all
  then have never: "after s \<noteq> (Inr (), r)" for s r
    by (metis fst_conv)
  from ret show False
    unfolding homing_def after_def [symmetric]
    by (auto simp: never simp del: seqA.simps split: prod.splits sum.splits option.splits)
qed

text \<open>
  C4, where the code departs from it. \<open>homing\<close> never returns normally: its last
  statement is \<open>orient\<close> with \<open>wait\<close> true and the default duration \<open>- 1\<close>, whose sleep
  raises. On a bus that does not fail, once the stall loop has left, \<open>homing\<close> ends with
  the \<open>ValueError\<close> of \<open>time.sleep\<close>; at that point the cached compliant flag is false,
  the model's reset has run exactly once, and the log ends with that reset and the three
  target-position writes of the identity orientation, with no sleep after them.
\<close>

theorem homing_raises_at_final_wait:
  assumes ok: "\<forall>n. \<not> fails b n"
    and st: "stalled_at b (disks s) (ticks s + 12) k"
    and sp: "speed \<noteq> 0"
    and pos: "0 \<le> target_pos / speed + 1 / 4"
    and sol: "get_angles_from_quaternion K (reset_last_angles K (model s)) 1 0 0 0
                = ([a1, a2, a3], k')"
  shows "(\<exists>s' pre.
            homing b K speed limit_pos target_pos s
              = Some (Inl (ValueError ''sleep length must be non-negative''), s')
          \<and> \<not> compliant s'
          \<and> count_list (log s') EvResetLastAngles = Suc (count_list (log s) EvResetLastAngles)
          \<and> log s' = pre @ [EvResetLastAngles,
                             EvWrite (disk_top s) R_target_rot_position (VNum (- a1)),
                             EvWrite (disk_middle s) R_target_rot_position (VNum (- a2)),
                             EvWrite (disk_bottom s) R_target_rot_position (VNum (- a3))])
       \<and> (\<forall>s'. homing b K speed limit_pos target_pos s \<noteq> Some (Inr (), s'))"
proof -
  define s1 where "s1 = snd (homing_before b speed limit_pos s)"
  from homing_outcome [OF ok st, of K speed limit_pos target_pos]
  obtain T l where pl: "list_all is_poll l"
    and run: "homing b K speed limit_pos target_pos s
      = Some (homing_after b K speed target_pos (s1\<lparr>ticks := T, log := log s1 @ l\<rparr>))"
    unfolding s1_def by blast
  define s2 where "s2 = s1\<lparr>ticks := T, log := log s1 @ l\<rparr>"
  define s3 where "s3 = snd (homing_after b K speed target_pos s2)"
  have m2: "model s2 = model s" "disk_top s2 = disk_top s" "disk_middle s2 = disk_middle s"
    "disk_bottom s2 = disk_bottom s" "p_compliancy s2 = False"
    unfolding s2_def s1_def by (simp_all add: homing_before_ok [OF ok] del: seqA.simps)
  have c2: "count_list (log s2) EvResetLastAngles = count_list (log s) EvResetLastAngles"
    unfolding s2_def s1_def
    by (simp add: homing_before_ok [OF ok] count_poll [OF pl] del: seqA.simps)
  from sol have sol2: "get_angles_from_quaternion K (reset_last_angles K (model s2)) 1 0 0 0
                = ([a1, a2, a3], k')"
    by (simp only: m2)
  note after = homing_after_raises [OF ok sp pos sol2, folded s3_def]
  have res: "homing b K speed limit_pos target_pos s
               = Some (Inl (ValueError ''sleep length must be non-negative''), s3)"
    unfolding run s2_def [symmetric] s3_def using after(1) by (simp add: prod_eq_iff del: seqA.simps)
  have "\<not> compliant s3"
    using after(2) m2(5) by (simp add: compliant_def)
  moreover have "count_list (log s3) EvResetLastAngles = Suc (count_list (log s) EvResetLastAngles)"
    unfolding after(3) by (simp add: c2)
  moreover have "\<exists>pre. log s3 = pre @ [EvResetLastAngles,
                             EvWrite (disk_top s) R_target_rot_position (VNum (- a1)),
                             EvWrite (disk_middle s) R_target_rot_position (VNum (- a2)),
                             EvWrite (disk_bottom s) R_target_rot_position (VNum (- a3))]"
    unfolding after(3) m2
    by (intro exI [of _ "log s2 @ [EvSetToZero (disk_top s), EvSetToZero (disk_middle s),
                      EvSetToZero (disk_bottom s), EvSleep 1,
                      EvWrite (disk_top s) R_target_rot_position (VNum target_pos),
                      EvWrite (disk_middle s) R_target_rot_position (VNum target_pos),
                      EvWrite (disk_bottom s) R_target_rot_position (VNum target_pos),
                      EvSleep (target_pos / speed + 1 / 4),
                      EvSetToZero (disk_top s), EvSetToZero (disk_middle s),
                      EvSetToZero (disk_bottom s), EvSleep (1 / 10)]"]) simp
  ultimately show ?thesis
    using res homing_never_returns_normally [of b K speed limit_pos target_pos s] by blast
qed

theorem homing_raises_at_final_wait_witness:
  "\<exists>s' pre.
      homing quiet_bus stub_model 50 (- 270) 102 bench_state
        = Some (Inl (ValueError ''sleep length must be non-negative''), s')
    \<and> \<not> compliant s'
    \<and> count_list (log s') EvResetLastAngles = 1
    \<and> log s' = pre @ [EvResetLastAngles,
                       EvWrite 1 R_target_rot_position (VNum 1),
                       EvWrite 2 R_target_rot_position (VNum 0),
                       EvWrite 3 R_target_rot_position (VNum 0)]"
proof -
  have ok: "\<forall>n. \<not> fails quiet_bus n"
    by (simp add: quiet_bus_def)
  have st: "stalled_at quiet_bus (disks bench_state) (ticks bench_state + 12) 0"
    by (simp add: stalled_eval quiet_bus_def bench_state_def)
  have sp: "(50::real) \<noteq> 0" by simp
  have pos: "(0::real) \<le> 102 / 50 + 1 / 4" by simp
  have sol: "get_angles_from_quaternion stub_model
               (reset_last_angles stub_model (model bench_state)) 1 0 0 0 = ([- 1, 0, 0], ())"
    by (simp add: stub_model_def)
  from homing_raises_at_final_wait [OF ok st sp pos sol, of "- 270", THEN conjunct1]
  show ?thesis by (simp add: bench_state_def)
qed

section \<open>The cached speed and the speed of the disks\<close>

lemma orient_keeps_cache:
  assumes ok: "\<forall>n. \<not> fails b n"
    and sol: "get_angles_from_quaternion K (model s) qw qx qy qz = ([a1, a2, a3], k')"
    and dur: "duration > 0"
    and dist: "distinct (disks s)"
  shows "moving_speed (snd (orient b K (Quaternion qw qx qy qz) duration wait s)) = moving_speed s
    \<and> regs (snd (orient b K (Quaternion qw qx qy qz) duration wait s)) (disk_top s, R_target_rot_speed)
        = VNum (\<bar>- a1 - sensed b (ticks s) (disk_top s) R_rot_position\<bar> / duration)
    \<and> regs (snd (orient b K (Quaternion qw qx qy qz) duration wait s)) (disk_middle s, R_target_rot_speed)
        = VNum (\<bar>- a2 - sensed b (ticks s + 1) (disk_middle s) R_rot_position\<bar> / duration)
    \<and> regs (snd (orient b K (Quaternion qw qx qy qz) duration wait s)) (disk_bottom s, R_target_rot_speed)
        = VNum (\<bar>- a3 - sensed b (ticks s + 2) (disk_bottom s) R_rot_position\<bar> / duration)"
  using ok sol dur dist
  by (auto simp add: orient_def solve_quaternion_def disks_def moving_speed_def action_defs)

lemma set_moving_speed_ok:
  assumes ok: "\<forall>n. \<not> fails b n"
  shows "fst (set_moving_speed b v s) = Inr ()
       \<and> moving_speed (snd (set_moving_speed b v s)) = v
       \<and> (\<forall>d \<in> set (disks s). regs (snd (set_moving_speed b v s)) (d, R_target_rot_speed) = VNum v)"
  using ok by (simp add: set_moving_speed_def moving_speed_def disks_def action_defs)


text \<open>
  C10. \<open>orient\<close> with a positive duration and \<open>homing\<close> write target speeds to the disks
  themselves and leave the cached \<open>moving_speed\<close> as it was: after \<open>orient\<close> each disk
  holds its own computed speed, after \<open>homing\<close> each disk holds the homing speed, and
  neither value need be the cached one. An assignment to \<open>moving_speed\<close> makes the
  cache and the three disks agree again.
\<close>

theorem direct_speed_writes_leave_cache:
  assumes ok: "\<forall>n. \<not> fails b n"
    and sol: "get_angles_from_quaternion K (model s) qw qx qy qz = ([a1, a2, a3], k')"
    and dur: "duration > 0"
    and dist: "distinct (disks s)"
    and st: "stalled_at b (disks s) (ticks s + 12) k"
    and sol_home: "get_angles_from_quaternion K (reset_last_angles K (model s)) 1 0 0 0
                     = ([c1, c2, c3], k'')"
  shows "moving_speed (snd (orient b K (Quaternion qw qx qy qz) duration wait s)) = moving_speed s
    \<and> regs (snd (orient b K (Quaternion qw qx qy qz) duration wait s))
         (disk_top s, R_target_rot_speed)
        = VNum (\<bar>- a1 - sensed b (ticks s) (disk_top s) R_rot_position\<bar> / duration)
    \<and> regs (snd (orient b K (Quaternion qw qx qy qz) duration wait s))
         (disk_middle s, R_target_rot_speed)
        = VNum (\<bar>- a2 - sensed b (ticks s + 1) (disk_middle s) R_rot_position\<bar> / duration)
    \<and> regs (snd (orient b K (Quaternion qw qx qy qz) duration wait s))
         (disk_bottom s, R_target_rot_speed)
        = VNum (\<bar>- a3 - sensed b (ticks s + 2) (disk_bottom s) R_rot_position\<bar> / duration)
    \<and> (\<exists>r s'. homing b K speed limit_pos target_pos s = Some (r, s')
          \<and> moving_speed s' = moving_speed s
          \<and> (\<forall>d \<in> set (disks s). regs s' (d, R_target_rot_speed) = VNum speed))
    \<and> moving_speed (snd (set_moving_speed b v s)) = v
    \<and> (\<forall>d \<in> set (disks s).
          regs (snd (set_moving_speed b v s)) (d, R_target_rot_speed) = VNum v)"
proof -
  define s1 where "s1 = snd (homing_before b speed limit_pos s)"
  from homing_outcome [OF ok st, of K speed limit_pos target_pos]
  obtain T l where run: "homing b K speed limit_pos target_pos s
      = Some (homing_after b K speed target_pos (s1\<lparr>ticks := T, log := log s1 @ l\<rparr>))"
    unfolding s1_def by blast
  define s2 where "s2 = s1\<lparr>ticks := T, log := log s1 @ l\<rparr>"
  define s3 where "s3 = snd (homing_after b K speed target_pos s2)"
  have m2: "model s2 = model s" "p_moving_speed s2 = p_moving_speed s"
    unfolding s2_def s1_def by (simp_all add: homing_before_ok [OF ok] del: seqA.simps)
  have r2: "\<forall>d \<in> set (disks s). regs s2 (d, R_target_rot_speed) = VNum speed"
    unfolding s2_def s1_def using homing_before_ok(11) [OF ok, of s speed limit_pos]
    by (simp del: seqA.simps)
  from sol_home have sol2: "get_angles_from_quaternion K (reset_last_angles K (model s2)) 1 0 0 0
                = ([c1, c2, c3], k'')"
    by (simp only: m2)
  note keeps = homing_after_keeps_speed [OF ok sol2, where speed = speed
      and target_pos = target_pos, folded s3_def]
  have "homing b K speed limit_pos target_pos s
          = Some (fst (homing_after b K speed target_pos s2), s3)"
    unfolding run s2_def [symmetric] s3_def by (simp del: seqA.simps)
  moreover have "moving_speed s3 = moving_speed s"
    using keeps(1) m2(2) by (simp add: moving_speed_def)
  moreover have "\<forall>d \<in> set (disks s). regs s3 (d, R_target_rot_speed) = VNum speed"
    using keeps(2) r2 by simp
  ultimately have home: "\<exists>r s'. homing b K speed limit_pos target_pos s = Some (r, s')
          \<and> moving_speed s' = moving_speed s
          \<and> (\<forall>d \<in> set (disks s). regs s' (d, R_target_rot_speed) = VNum speed)"
    by blast
  from orient_keeps_cache [OF ok sol dur dist, of wait] home
    set_moving_speed_ok [OF ok, of v s]
  show ?thesis by (elim conjE) (intro conjI; assumption)
qed

theorem direct_speed_writes_leave_cache_witness:
  "moving_speed (snd (orient quiet_bus stub_model (Quaternion 1 0 0 0) 2 False bench_state)) = 50
   \<and> regs (snd (orient quiet_bus stub_model (Quaternion 1 0 0 0) 2 False bench_state))
        (1, R_target_rot_speed) = VNum (1 / 2)
   \<and> (\<exists>r s'. homing quiet_bus stub_model 20 (- 270) 102 bench_state = Some (r, s')
         \<and> moving_speed s' = 50
         \<and> regs s' (1, R_target_rot_speed) = VNum 20)
   \<and> moving_speed (snd (set_moving_speed quiet_bus 30 bench_state)) = 30
   \<and> regs (snd (set_moving_speed quiet_bus 30 bench_state)) (1, R_target_rot_speed) = VNum 30"
proof -
  have ok: "\<forall>n. \<not> fails quiet_bus n"
    by (simp add: quiet_bus_def)
  have sol: "get_angles_from_quaternion stub_model (model bench_state) 1 0 0 0 = ([- 1, 0, 0], ())"
    by (simp add: stub_model_def)
  have dur: "(2::real) > 0" by simp
  have dist: "distinct (disks bench_state)"
    by (simp add: disks_def bench_state_def)
  have st: "stalled_at quiet_bus (disks bench_state) (ticks bench_state + 12) 0"
    by (simp add: stalled_eval quiet_bus_def bench_state_def)
  have sol_home: "get_angles_from_quaternion stub_model
               (reset_last_angles stub_model (model bench_state)) 1 0 0 0 = ([- 1, 0, 0], ())"
    by (simp add: stub_model_def)
  have top: "1 \<in> set (disks bench_state)" "disk_top bench_state = 1"
    "moving_speed bench_state = 50" "ticks bench_state = 0"
    by (simp_all add: disks_def bench_state_def moving_speed_def)
  note t = direct_speed_writes_leave_cache [OF ok sol dur dist st sol_home,
      where wait = False and speed = 20 and limit_pos = "- 270" and target_pos = 102
      and v = 30]
  from t [THEN conjunct1]
  have a: "moving_speed (snd (orient quiet_bus stub_model (Quaternion 1 0 0 0) 2 False
      bench_state)) = 50"
    by (simp add: top)
  from t [THEN conjunct2, THEN conjunct1]
  have b: "regs (snd (orient quiet_bus stub_model (Quaternion 1 0 0 0) 2 False bench_state))
        (1, R_target_rot_speed) = VNum (1 / 2)"
    by (simp add: top quiet_bus_def)
  from t [THEN conjunct2, THEN conjunct2, THEN conjunct2, THEN conjunct2, THEN conjunct1] top(1)
  have c: "\<exists>r s'. homing quiet_bus stub_model 20 (- 270) 102 bench_state = Some (r, s')
         \<and> moving_speed s' = 50
         \<and> regs s' (1, R_target_rot_speed) = VNum 20"
    unfolding top(3) by blast
  from t [THEN conjunct2, THEN conjunct2, THEN conjunct2, THEN conjunct2, THEN conjunct2,
      THEN conjunct1]
  have d: "moving_speed (snd (set_moving_speed quiet_bus 30 bench_state)) = 30" .
  from t [THEN conjunct2, THEN conjunct2, THEN conjunct2, THEN conjunct2, THEN conjunct2,
      THEN conjunct2] top(1)
  have e: "regs (snd (set_moving_speed quiet_bus 30 bench_state)) (1, R_target_rot_speed)
      = VNum 30"
    by blast
  from a b c d e show ?thesis by (intro conjI)
qed

end
